theory Spec2Isabelle
  imports Main "HOL-Library.Char_ord" "HOL-Library.List_Lexorder" "HOL-Library.Product_Lexorder"
    "HOL-Library.Multiset"
begin

section \<open>Python values used by the stock data visualizer\<close>

text \<open>
  A Python \<open>str\<close> is a \<open>string\<close>: a list of characters, each a code point below 256.
  Strings compare as Python compares them, lexicographically by code point.
  Every exception the code can raise is a value of \<open>error\<close>; a function that can raise
  returns \<open>error + 'a\<close> with \<open>Inl\<close> for the exception.
\<close>

datatype error = KeyError | ValueError | IndexError | TypeError | AttributeError

text \<open>
  Parsed JSON, as \<open>response.json()\<close> returns it. A JSON object is a Python dict, kept as
  an association list in insertion order. \<open>'n\<close> is the type of Python numbers.
\<close>

datatype 'n json =
    JNull
  | JBool bool
  | JNum 'n
  | JStr string
  | JArr "'n json list"
  | JObj "(string \<times> 'n json) list"

subsection \<open>\<open>str.split()\<close> and \<open>str.strip()\<close>\<close>

text \<open>The characters below 256 for which \<open>str.isspace()\<close> holds.\<close>

definition is_space :: "char \<Rightarrow> bool" where
  "is_space c = (of_char c \<in> {9, 10, 11, 12, 13, 28, 29, 30, 31, 32, 133, 160 :: nat})"

text \<open>\<open>s.split()\<close>: the maximal runs of non-whitespace characters of \<open>s\<close>, in order.\<close>

function py_split :: "string \<Rightarrow> string list" where
  "py_split s =
     (let t = dropWhile is_space s
      in if t = [] then []
         else takeWhile (\<lambda>c. \<not> is_space c) t # py_split (dropWhile (\<lambda>c. \<not> is_space c) t))"
  by pat_completeness auto
termination
proof (relation "measure length")
  show "wf (measure length)" by simp
next
  fix s t :: string
  assume t: "t = dropWhile is_space s" and ne: "t \<noteq> []"
  from ne obtain c cs where tc: "t = c # cs" by (cases t) auto
  have "\<not> is_space c"
    using t tc dropWhile_eq_Cons_conv [of is_space s c cs] by simp
  then have "length (dropWhile (\<lambda>c. \<not> is_space c) t) \<le> length cs"
    using tc by (simp add: length_dropWhile_le)
  also have "length cs < length t" using tc by simp
  also have "length t \<le> length s" using t by (simp add: length_dropWhile_le)
  finally show "(dropWhile (\<lambda>c. \<not> is_space c) t, s) \<in> measure length" by simp
qed

declare py_split.simps [simp del]

definition py_strip :: "string \<Rightarrow> string" where
  "py_strip s = rev (dropWhile is_space (rev (dropWhile is_space s)))"

text \<open>\<open>xs[0]\<close> raises IndexError on the empty list.\<close>

definition index0 :: "'a list \<Rightarrow> error + 'a" where
  "index0 xs = (case xs of [] \<Rightarrow> Inl IndexError | x # _ \<Rightarrow> Inr x)"

subsection \<open>\<open>datetime\<close> and \<open>datetime.strptime(s, '%Y-%m-%d')\<close>\<close>

text \<open>
  The format \<open>%Y-%m-%d\<close> sets no time of day, so every \<open>datetime\<close> the program
  handles is at midnight; the record keeps the calendar fields, which is what the
  comparison of such values looks at.
\<close>

record datetime =
  year :: nat
  month :: nat
  day :: nat

definition date_tuple :: "datetime \<Rightarrow> nat \<times> nat \<times> nat" where
  "date_tuple d = (year d, month d, day d)"

text \<open>\<open>a <= b\<close> on \<open>datetime\<close>: the fields compared in order.\<close>

definition date_le :: "datetime \<Rightarrow> datetime \<Rightarrow> bool" where
  "date_le a b = (date_tuple a \<le> date_tuple b)"

definition is_leap :: "nat \<Rightarrow> bool" where
  "is_leap y = (y mod 4 = 0 \<and> (y mod 100 \<noteq> 0 \<or> y mod 400 = 0))"

definition days_in_month :: "nat \<Rightarrow> nat \<Rightarrow> nat" where
  "days_in_month y m =
     (if m = 2 then (if is_leap y then 29 else 28)
      else if m \<in> {4, 6, 9, 11} then 30 else 31)"

text \<open>The constructor \<open>datetime(y, m, d)\<close> raises ValueError outside these bounds.\<close>

definition valid_date :: "datetime \<Rightarrow> bool" where
  "valid_date d =
     (1 \<le> year d \<and> year d \<le> 9999 \<and> 1 \<le> month d \<and> month d \<le> 12 \<and>
      1 \<le> day d \<and> day d \<le> days_in_month (year d) (month d))"

text \<open>A character class \<open>[lo-hi]\<close> of a regular expression: a range of code points.\<close>

definition cls :: "char \<Rightarrow> char \<Rightarrow> char \<Rightarrow> bool" where
  "cls lo hi c = (lo \<le> c \<and> c \<le> hi)"

text \<open>\<open>\d\<close>, and the value \<open>int\<close> gives a digit.\<close>

definition is_digit :: "char \<Rightarrow> bool" where
  "is_digit c = cls CHR ''0'' CHR ''9'' c"

definition digit_val :: "char \<Rightarrow> nat" where
  "digit_val c = of_char c - 48"

text \<open>
  \<open>strptime\<close> compiles the format into the regular expression
  \<^verbatim>\<open>(?P<Y>\d\d\d\d)-(?P<m>1[0-2]|0[1-9]|[1-9])-(?P<d>3[0-1]|[1-2]\d|0[1-9]|[1-9]| [1-9])\<close>
  and matches it at the start of the string. Each group is modelled by the list of its
  matches, in the order the backtracking matcher tries them: the value read and the
  rest of the input.
\<close>

definition group_Y :: "string \<Rightarrow> (nat \<times> string) list" where
  "group_Y s =
     (case s of
        a # b # c # d # rest \<Rightarrow>
          if is_digit a \<and> is_digit b \<and> is_digit c \<and> is_digit d
          then [(1000 * digit_val a + 100 * digit_val b + 10 * digit_val c + digit_val d, rest)]
          else []
      | _ \<Rightarrow> [])"

definition group_m :: "string \<Rightarrow> (nat \<times> string) list" where
  "group_m s =
     (case s of
        a # b # rest \<Rightarrow>
          (if a = CHR ''1'' \<and> cls CHR ''0'' CHR ''2'' b then [(10 + digit_val b, rest)] else []) @
          (if a = CHR ''0'' \<and> cls CHR ''1'' CHR ''9'' b then [(digit_val b, rest)] else []) @
          (if cls CHR ''1'' CHR ''9'' a then [(digit_val a, b # rest)] else [])
      | [a] \<Rightarrow> (if cls CHR ''1'' CHR ''9'' a then [(digit_val a, [])] else [])
      | [] \<Rightarrow> [])"

definition group_d :: "string \<Rightarrow> (nat \<times> string) list" where
  "group_d s =
     (case s of
        a # b # rest \<Rightarrow>
          (if a = CHR ''3'' \<and> cls CHR ''0'' CHR ''1'' b then [(30 + digit_val b, rest)] else []) @
          (if cls CHR ''1'' CHR ''2'' a \<and> is_digit b
           then [(10 * digit_val a + digit_val b, rest)] else []) @
          (if a = CHR ''0'' \<and> cls CHR ''1'' CHR ''9'' b then [(digit_val b, rest)] else []) @
          (if cls CHR ''1'' CHR ''9'' a then [(digit_val a, b # rest)] else []) @
          (if a = CHR '' '' \<and> cls CHR ''1'' CHR ''9'' b then [(digit_val b, rest)] else [])
      | [a] \<Rightarrow> (if cls CHR ''1'' CHR ''9'' a then [(digit_val a, [])] else [])
      | [] \<Rightarrow> [])"

text \<open>A literal character of the pattern.\<close>

definition lit :: "char \<Rightarrow> string \<Rightarrow> string list" where
  "lit c s = (case s of [] \<Rightarrow> [] | a # rest \<Rightarrow> if a = c then [rest] else [])"

text \<open>
  All matches of the whole pattern, in the matcher's order; \<open>match\<close> returns the first.
\<close>

definition regex_matches :: "string \<Rightarrow> ((nat \<times> nat \<times> nat) \<times> string) list" where
  "regex_matches s =
     concat (map (\<lambda>(y, r1).
       concat (map (\<lambda>r2.
         concat (map (\<lambda>(m, r3).
           concat (map (\<lambda>r4.
             map (\<lambda>(d, r5). ((y, m, d), r5)) (group_d r4))
           (lit CHR ''-'' r3)))
         (group_m r2)))
       (lit CHR ''-'' r1)))
     (group_Y s))"

text \<open>
  \<open>datetime.strptime(s, '%Y-%m-%d')\<close>: ValueError when the pattern does not match,
  when the match leaves input unconverted, and when the fields are not a date.
\<close>

definition strptime :: "string \<Rightarrow> error + datetime" where
  "strptime s =
     (case regex_matches s of
        [] \<Rightarrow> Inl ValueError
      | ((y, m, d), rest) # _ \<Rightarrow>
          if rest \<noteq> [] then Inl ValueError
          else let dt = \<lparr>year = y, month = m, day = d\<rparr>
               in if valid_date dt then Inr dt else Inl ValueError)"


subsection \<open>Operations on JSON values\<close>

text \<open>\<open>k in s\<close> for two strings: \<open>k\<close> occurs in \<open>s\<close>.\<close>

fun is_substring :: "string \<Rightarrow> string \<Rightarrow> bool" where
  "is_substring k [] = (k = [])"
| "is_substring k (c # cs) = (take (length k) (c # cs) = k \<or> is_substring k cs)"

text \<open>
  \<open>k in data\<close> for a string \<open>k\<close>: a key of a dict, an element of a list, a substring
  of a string; TypeError for a value that is not a container.
\<close>

definition py_in :: "string \<Rightarrow> 'n json \<Rightarrow> error + bool" where
  "py_in k data =
     (case data of
        JObj kvs \<Rightarrow> Inr (map_of kvs k \<noteq> None)
      | JArr xs \<Rightarrow> Inr (list_ex (\<lambda>x. case x of JStr s \<Rightarrow> s = k | _ \<Rightarrow> False) xs)
      | JStr s \<Rightarrow> Inr (is_substring k s)
      | _ \<Rightarrow> Inl TypeError)"

text \<open>\<open>data[k]\<close> for a string \<open>k\<close>.\<close>

definition py_getitem :: "'n json \<Rightarrow> string \<Rightarrow> error + 'n json" where
  "py_getitem data k =
     (case data of
        JObj kvs \<Rightarrow> (case map_of kvs k of None \<Rightarrow> Inl KeyError | Some v \<Rightarrow> Inr v)
      | _ \<Rightarrow> Inl TypeError)"

text \<open>\<open>data.items()\<close>: only a dict has the method.\<close>

definition py_items :: "'n json \<Rightarrow> error + (string \<times> 'n json) list" where
  "py_items data = (case data of JObj kvs \<Rightarrow> Inr kvs | _ \<Rightarrow> Inl AttributeError)"

text \<open>\<open>d[k] = v\<close> on a dict: a present key keeps its place, a new key goes last.\<close>

fun dict_set :: "('k \<times> 'v) list \<Rightarrow> 'k \<Rightarrow> 'v \<Rightarrow> ('k \<times> 'v) list" where
  "dict_set [] k v = [(k, v)]"
| "dict_set ((k', v') # rest) k v =
     (if k' = k then (k, v) # rest else (k', v') # dict_set rest k v)"

section \<open>model.py\<close>

subsection \<open>AlphaVantageAPI\<close>

text \<open>
  The network is a function from the request sent to the reply: \<open>requests.get\<close> raising
  a RequestException, or a response with its status (True when \<open>raise_for_status\<close>
  passes) and its body (None when \<open>response.json()\<close> raises its RequestException,
  the JSONDecodeError of \<open>requests\<close>). The requests sent are recorded in a log.
\<close>

datatype 'n http_reply = RequestException | Response bool "'n json option"

type_synonym request = "string \<times> (string \<times> string) list"

definition BASE_URL :: string where
  "BASE_URL = ''https://www.alphavantage.co/query''"

definition function_map :: "(int \<times> string) list" where
  "function_map =
     [(1, ''TIME_SERIES_INTRADAY''),
      (2, ''TIME_SERIES_DAILY''),
      (3, ''TIME_SERIES_WEEKLY''),
      (4, ''TIME_SERIES_MONTHLY'')]"

text \<open>The request parameters \<open>fetch_stock_data\<close> builds; KeyError from \<open>function_map[time_series]\<close>.\<close>

definition build_params :: "string \<Rightarrow> string \<Rightarrow> int \<Rightarrow> error + (string \<times> string) list" where
  "build_params api_key symbol time_series =
     (case map_of function_map time_series of
        None \<Rightarrow> Inl KeyError
      | Some f \<Rightarrow>
          let params = [(''function'', f), (''symbol'', symbol), (''apikey'', api_key),
                        (''outputsize'', ''full'')]
          in Inr (if time_series = 1 then dict_set params ''interval'' ''60min'' else params))"

text \<open>
  The \<open>try\<close> block: the reply classified. Only a RequestException is caught. When
  \<open>"Error Message" in data\<close> holds, the message printed reads \<open>data['Error Message']\<close>,
  and likewise for \<open>"Note"\<close>: on a dict this is the value found and None is returned; on a
  list or a string holding the text the subscript raises TypeError, as does \<open>in\<close> on a
  value that is no container, and the TypeError leaves the function.
\<close>

definition classify_reply :: "'n http_reply \<Rightarrow> error + 'n json option" where
  "classify_reply reply =
     (case reply of
        RequestException \<Rightarrow> Inr None
      | Response ok body \<Rightarrow>
          if \<not> ok then Inr None
          else (case body of
                  None \<Rightarrow> Inr None
                | Some data \<Rightarrow>
                    (case py_in ''Error Message'' data of
                       Inl e \<Rightarrow> Inl e
                     | Inr True \<Rightarrow>
                         (case py_getitem data ''Error Message'' of
                            Inl e \<Rightarrow> Inl e
                          | Inr message \<Rightarrow> Inr None)
                     | Inr False \<Rightarrow>
                         (case py_in ''Note'' data of
                            Inl e \<Rightarrow> Inl e
                          | Inr True \<Rightarrow>
                              (case py_getitem data ''Note'' of
                                 Inl e \<Rightarrow> Inl e
                               | Inr advice \<Rightarrow> Inr None)
                          | Inr False \<Rightarrow> Inr (Some data)))))"

definition fetch_stock_data ::
  "(request \<Rightarrow> 'n http_reply) \<Rightarrow> string \<Rightarrow> string \<Rightarrow> int \<Rightarrow> request list
     \<Rightarrow> (error + 'n json option) \<times> request list" where
  "fetch_stock_data http_get api_key symbol time_series log =
     (case build_params api_key symbol time_series of
        Inl e \<Rightarrow> (Inl e, log)
      | Inr params \<Rightarrow>
          (classify_reply (http_get (BASE_URL, params)), log @ [(BASE_URL, params)]))"

subsection \<open>StockData\<close>

record 'n stock_data =
  symbol :: string
  raw_data :: "'n json"
  time_series :: int
  filtered_data :: "(string \<times> 'n json) list"

definition StockData :: "string \<Rightarrow> 'n json \<Rightarrow> int \<Rightarrow> 'n stock_data" where
  "StockData symb raw ts =
     \<lparr>symbol = symb, raw_data = raw, time_series = ts, filtered_data = []\<rparr>"

definition time_series_key_map :: "(int \<times> string) list" where
  "time_series_key_map =
     [(1, ''Time Series (60min)''),
      (2, ''Time Series (Daily)''),
      (3, ''Weekly Time Series''),
      (4, ''Monthly Time Series'')]"

text \<open>The date a timestamp key stands for: \<open>strptime(date_str.split()[0], '%Y-%m-%d')\<close>.\<close>

definition key_date :: "string \<Rightarrow> error + datetime" where
  "key_date date_str =
     (case index0 (py_split date_str) of
        Inl e \<Rightarrow> Inl e
      | Inr date_only \<Rightarrow> strptime date_only)"

text \<open>The loop over \<open>time_series_data.items()\<close>; \<open>acc\<close> is \<open>self.filtered_data\<close>.\<close>

fun filter_loop ::
  "datetime \<Rightarrow> datetime \<Rightarrow> (string \<times> 'v) list \<Rightarrow> (string \<times> 'v) list
     \<Rightarrow> error + (string \<times> 'v) list" where
  "filter_loop start_date end_date [] acc = Inr acc"
| "filter_loop start_date end_date ((date_str, values) # rest) acc =
     (case key_date date_str of
        Inl e \<Rightarrow> Inl e
      | Inr date_obj \<Rightarrow>
          filter_loop start_date end_date rest
            (if date_le start_date date_obj \<and> date_le date_obj end_date
             then dict_set acc date_str values else acc))"

text \<open>
  Returns the dict and the object after the call. When the key is missing, the fresh
  empty dict is returned and \<open>self.filtered_data\<close> is left as it was.
\<close>

definition filter_by_date_range ::
  "'n stock_data \<Rightarrow> datetime \<Rightarrow> datetime
     \<Rightarrow> error + ((string \<times> 'n json) list \<times> 'n stock_data)" where
  "filter_by_date_range self start_date end_date =
     (case map_of time_series_key_map (time_series self) of
        None \<Rightarrow> Inl KeyError
      | Some time_series_key \<Rightarrow>
          (case py_in time_series_key (raw_data self) of
             Inl e \<Rightarrow> Inl e
           | Inr False \<Rightarrow> Inr ([], self)
           | Inr True \<Rightarrow>
               (case py_getitem (raw_data self) time_series_key of
                  Inl e \<Rightarrow> Inl e
                | Inr time_series_data \<Rightarrow>
                    (case py_items time_series_data of
                       Inl e \<Rightarrow> Inl e
                     | Inr items \<Rightarrow>
                         (case filter_loop start_date end_date items [] of
                            Inl e \<Rightarrow> Inl e
                          | Inr fd \<Rightarrow> Inr (fd, self\<lparr>filtered_data := fd\<rparr>))))))"

record 'n formatted =
  dates :: "string list"
  "open" :: "'n list"
  high :: "'n list"
  low :: "'n list"
  close :: "'n list"

text \<open>\<open>float(values[k])\<close>; \<open>py_float\<close> is Python's \<open>float\<close> on a JSON value.\<close>

definition float_field ::
  "('n json \<Rightarrow> error + 'n) \<Rightarrow> 'n json \<Rightarrow> string \<Rightarrow> error + 'n" where
  "float_field py_float values k =
     (case py_getitem values k of Inl e \<Rightarrow> Inl e | Inr x \<Rightarrow> py_float x)"

text \<open>The loop over \<open>sorted_dates\<close>; \<open>acc\<close> holds the five lists.\<close>

fun format_loop ::
  "('n json \<Rightarrow> error + 'n) \<Rightarrow> (string \<times> 'n json) list \<Rightarrow> string list
     \<Rightarrow> 'n formatted \<Rightarrow> error + 'n formatted" where
  "format_loop py_float fd [] acc = Inr acc"
| "format_loop py_float fd (date # rest) acc =
     (case map_of fd date of
        None \<Rightarrow> Inl KeyError
      | Some values \<Rightarrow>
     (case index0 (py_split date) of
        Inl e \<Rightarrow> Inl e
      | Inr date_only \<Rightarrow>
     (case float_field py_float values ''1. open'' of
        Inl e \<Rightarrow> Inl e
      | Inr ov \<Rightarrow>
     (case float_field py_float values ''2. high'' of
        Inl e \<Rightarrow> Inl e
      | Inr hv \<Rightarrow>
     (case float_field py_float values ''3. low'' of
        Inl e \<Rightarrow> Inl e
      | Inr lv \<Rightarrow>
     (case float_field py_float values ''4. close'' of
        Inl e \<Rightarrow> Inl e
      | Inr cv \<Rightarrow>
          format_loop py_float fd rest
            \<lparr>dates = dates acc @ [date_only], open = open acc @ [ov], high = high acc @ [hv],
             low = low acc @ [lv], close = close acc @ [cv]\<rparr>))))))"

text \<open>\<open>sorted\<close> on strings is \<open>sort\<close>: ascending in the order of \<open>str\<close>.\<close>

definition get_formatted_data ::
  "('n json \<Rightarrow> error + 'n) \<Rightarrow> 'n stock_data \<Rightarrow> error + 'n formatted option" where
  "get_formatted_data py_float self =
     (if filtered_data self = [] then Inr None
      else (case format_loop py_float (filtered_data self)
                   (sort (map fst (filtered_data self)))
                   \<lparr>dates = [], open = [], high = [], low = [], close = []\<rparr> of
              Inl e \<Rightarrow> Inl e
            | Inr f \<Rightarrow> Inr (Some f)))"

subsection \<open>Validation functions\<close>

text \<open>Only ValueError is caught.\<close>

definition validate_date_format :: "string \<Rightarrow> error + datetime option" where
  "validate_date_format date_string =
     (case strptime date_string of
        Inr d \<Rightarrow> Inr (Some d)
      | Inl ValueError \<Rightarrow> Inr None
      | Inl e \<Rightarrow> Inl e)"

definition validate_date_range :: "datetime \<Rightarrow> datetime \<Rightarrow> bool" where
  "validate_date_range start_date end_date = (date_tuple end_date \<ge> date_tuple start_date)"

section \<open>view.py\<close>

text \<open>\<open>str(xs)\<close> of a list: the \<open>repr\<close> of the elements between brackets.\<close>

fun join :: "string \<Rightarrow> string list \<Rightarrow> string" where
  "join sep [] = []"
| "join sep [x] = x"
| "join sep (x # y # ys) = x @ sep @ join sep (y # ys)"

definition py_list_str :: "('a \<Rightarrow> string) \<Rightarrow> 'a list \<Rightarrow> string" where
  "py_list_str repr xs = ''['' @ join '', '' (map repr xs) @ '']''"

text \<open>
  \<open>ChartGenerator.create_chart\<close>: the f-string, piece by piece. \<open>repr_str\<close> and
  \<open>repr_num\<close> are Python's \<open>repr\<close> on strings and on floats.
\<close>

definition create_chart ::
  \<open>(string \<Rightarrow> string) \<Rightarrow> ('n \<Rightarrow> string) \<Rightarrow> 'n formatted option \<Rightarrow> string \<Rightarrow> int
     \<Rightarrow> string \<Rightarrow> string \<Rightarrow> string option\<close> where
  \<open>create_chart repr_str repr_num data_opt symb chart_type start_date end_date =
     (case data_opt of
        None \<Rightarrow> None
      | Some data \<Rightarrow>
          if dates data = [] then None
          else
            let chart_type_str = (if chart_type = 1 then ''bar'' else ''line'')
            in Some (concat [
            ''\<newline>'',
            ''        <div class="chart-container" style="position: relative; height:600px;">\<newline>'',
            ''            <h2>Stock Data for '' @ symb @ '': '' @ start_date @ '' to '' @ end_date @ ''</h2>\<newline>'',
            ''            <canvas id="stockChart"></canvas>\<newline>'',
            ''        </div>\<newline>'',
            ''        <script src="https://cdn.jsdelivr.net/npm/chart.js"></script>\<newline>'',
            ''        <script>\<newline>'',
            ''            const ctx = document.getElementById('stockChart').getContext('2d');\<newline>'',
            ''            new Chart(ctx, {\<newline>'',
            ''                type: '' @ [CHR 0x27] @ chart_type_str @ [CHR 0x27] @ '',\<newline>'',
            ''                data: {\<newline>'',
            ''                    labels: '' @ py_list_str repr_str (dates data) @ '',\<newline>'',
            ''                    datasets: [\<newline>'',
            ''                        {\<newline>'',
            ''                            label: 'Open',\<newline>'',
            ''                            data: '' @ py_list_str repr_num (open data) @ '',\<newline>'',
            ''                            borderColor: 'rgba(255,99,132,1)',\<newline>'',
            ''                            backgroundColor: 'rgba(255,99,132,0.25)',\<newline>'',
            ''                            fill: false\<newline>'',
            ''                        },\<newline>'',
            ''                        {\<newline>'',
            ''                            label: 'High',\<newline>'',
            ''                            data: '' @ py_list_str repr_num (high data) @ '',\<newline>'',
            ''                            borderColor: 'rgba(54,162,235,1)',\<newline>'',
            ''                            backgroundColor: 'rgba(54,162,235,0.25)',\<newline>'',
            ''                            fill: false\<newline>'',
            ''                        },\<newline>'',
            ''                        {\<newline>'',
            ''                            label: 'Low',\<newline>'',
            ''                            data: '' @ py_list_str repr_num (low data) @ '',\<newline>'',
            ''                            borderColor: 'rgba(75,192,192,1)',\<newline>'',
            ''                            backgroundColor: 'rgba(75,192,192,0.25)',\<newline>'',
            ''                            fill: false\<newline>'',
            ''                        },\<newline>'',
            ''                        {\<newline>'',
            ''                            label: 'Close',\<newline>'',
            ''                            data: '' @ py_list_str repr_num (close data) @ '',\<newline>'',
            ''                            borderColor: 'rgba(255,206,86,1)',\<newline>'',
            ''                            backgroundColor: 'rgba(255,206,86,0.25)',\<newline>'',
            ''                            fill: false\<newline>'',
            ''                        }\<newline>'',
            ''                    ]\<newline>'',
            ''                },\<newline>'',
            ''                options: {\<newline>'',
            ''                    responsive: true,\<newline>'',
            ''                    maintainAspectRatio: false,\<newline>'',
            ''                    scales: {\<newline>'',
            ''                        y: {\<newline>'',
            ''                            beginAtZero: false,\<newline>'',
            ''                            title: {\<newline>'',
            ''                                display: true,\<newline>'',
            ''                                text: 'Price ($)'\<newline>'',
            ''                            }\<newline>'',
            ''                        },\<newline>'',
            ''                        x: {\<newline>'',
            ''                            title: {\<newline>'',
            ''                                display: true,\<newline>'',
            ''                                text: 'Date'\<newline>'',
            ''                            },\<newline>'',
            ''                            ticks: {\<newline>'',
            ''                                maxRotation: 45,\<newline>'',
            ''                                minRotation: 45\<newline>'',
            ''                            }\<newline>'',
            ''                        }\<newline>'',
            ''                    },\<newline>'',
            ''                    plugins: {\<newline>'',
            ''                        legend: {\<newline>'',
            ''                            display: true,\<newline>'',
            ''                            position: 'top'\<newline>'',
            ''                        }\<newline>'',
            ''                    }\<newline>'',
            ''                }\<newline>'',
            ''            });\<newline>'',
            ''        </script>\<newline>'',
            ''        ''
            ]))\<close>

section \<open>app.py\<close>

text \<open>
  What \<open>index\<close> takes from its surroundings: Python's \<open>int\<close> on a string (None for
  ValueError), \<open>str.upper\<close>, \<open>float\<close>, the truth value of a number, \<open>repr\<close>, the
  network, the API key of \<open>config.py\<close> and the list \<open>load_symbols()\<close> returns.
\<close>

record 'n environment =
  env_int :: "string \<Rightarrow> int option"
  env_upper :: "string \<Rightarrow> string"
  env_float :: "'n json \<Rightarrow> error + 'n"
  env_bool :: "'n \<Rightarrow> bool"
  env_repr_str :: "string \<Rightarrow> string"
  env_repr_num :: "'n \<Rightarrow> string"
  env_http_get :: "request \<Rightarrow> 'n http_reply"
  env_API_KEY :: string
  env_symbols :: "string list"

datatype http_request = GET | POST "(string \<times> string) list"

text \<open>The rendered template: its three arguments and the messages flashed.\<close>

record page =
  symbols :: "string list"
  chart_html :: "string option"
  selected_symbol :: "string option"
  flashes :: "(string \<times> string) list"

text \<open>\<open>request.form.get(k, default)\<close>.\<close>

definition form_get :: "(string \<times> string) list \<Rightarrow> string \<Rightarrow> string \<Rightarrow> string" where
  "form_get form k dflt = (case map_of form k of None \<Rightarrow> dflt | Some v \<Rightarrow> v)"

text \<open>\<open>not raw_data\<close> is \<open>\<not> truthy raw_data\<close>.\<close>

definition truthy :: "('n \<Rightarrow> bool) \<Rightarrow> 'n json \<Rightarrow> bool" where
  "truthy num_bool data =
     (case data of
        JNull \<Rightarrow> False
      | JBool b \<Rightarrow> b
      | JNum n \<Rightarrow> num_bool n
      | JStr s \<Rightarrow> s \<noteq> []
      | JArr xs \<Rightarrow> xs \<noteq> []
      | JObj kvs \<Rightarrow> kvs \<noteq> [])"

text \<open>\<open>str(n)\<close> of a length.\<close>

fun str_nat :: "nat \<Rightarrow> string" where
  "str_nat n =
     (if n < 10 then [''0123456789'' ! n]
      else str_nat (n div 10) @ [''0123456789'' ! (n mod 10)])"

declare str_nat.simps [simp del]

text \<open>A flash followed by the template rendered without a chart.\<close>

definition flash_page ::
  "'n environment \<Rightarrow> string \<Rightarrow> string \<Rightarrow> string \<Rightarrow> page" where
  "flash_page env symb message category =
     \<lparr>symbols = env_symbols env, chart_html = None, selected_symbol = Some symb,
      flashes = [(message, category)]\<rparr>"

definition fetch_failed_message :: string where
  "fetch_failed_message = ''Failed to fetch stock data. Please check the symbol and try again.''"

definition no_data_message :: "string \<Rightarrow> string \<Rightarrow> string \<Rightarrow> string" where
  "no_data_message symb start_date_str end_date_str =
     ''No data found for '' @ symb @ '' in the date range '' @ start_date_str @ '' to '' @
     end_date_str @ ''.''"

definition range_message :: string where
  "range_message = ''End date must be on or after the start date.''"

text \<open>\<open>index\<close> from the fetch on, the inputs validated.\<close>

definition fetch_and_render ::
  "'n environment \<Rightarrow> string \<Rightarrow> int \<Rightarrow> int \<Rightarrow> string \<Rightarrow> string \<Rightarrow> datetime \<Rightarrow> datetime
     \<Rightarrow> (error + page) \<times> request list" where
  "fetch_and_render env symb chart_type ts start_date_str end_date_str start_date end_date =
     (case fetch_stock_data (env_http_get env) (env_API_KEY env) symb ts [] of
        (Inl e, log) \<Rightarrow> (Inl e, log)
      | (Inr None, log) \<Rightarrow> (Inr (flash_page env symb fetch_failed_message ''error''), log)
      | (Inr (Some raw), log) \<Rightarrow>
          if \<not> truthy (env_bool env) raw
          then (Inr (flash_page env symb fetch_failed_message ''error''), log)
          else
     (case filter_by_date_range (StockData symb raw ts) start_date end_date of
        Inl e \<Rightarrow> (Inl e, log)
      | Inr (_, stock) \<Rightarrow>
     (case get_formatted_data (env_float env) stock of
        Inl e \<Rightarrow> (Inl e, log)
      | Inr None \<Rightarrow>
          (Inr (flash_page env symb (no_data_message symb start_date_str end_date_str)
                  ''warning''), log)
      | Inr (Some formatted_data) \<Rightarrow>
          if dates formatted_data = []
          then (Inr (flash_page env symb (no_data_message symb start_date_str end_date_str)
                       ''warning''), log)
          else
     (case create_chart (env_repr_str env) (env_repr_num env) (Some formatted_data) symb
             chart_type start_date_str end_date_str of
        None \<Rightarrow> (Inr (flash_page env symb ''Failed to generate chart.'' ''error''), log)
      | Some html \<Rightarrow>
          (Inr \<lparr>symbols = env_symbols env, chart_html = Some html,
                selected_symbol = Some symb,
                flashes = [(''Successfully generated chart for '' @ symb @ '' with '' @
                            str_nat (length (dates formatted_data)) @ '' data points.'',
                            ''success'')]\<rparr>, log)))))"

text \<open>
  The route. \<open>int\<close> raising ValueError ends the request with that exception. A
  \<open>datetime\<close> is never false, so \<open>not start_date\<close> holds for None only.
\<close>

definition index :: "'n environment \<Rightarrow> http_request \<Rightarrow> (error + page) \<times> request list" where
  "index env req =
     (case req of
        GET \<Rightarrow>
          (Inr \<lparr>symbols = env_symbols env, chart_html = None, selected_symbol = None,
                flashes = []\<rparr>, [])
      | POST form \<Rightarrow>
          let symb = env_upper env (py_strip (form_get form ''symbol'' []))
          in
     (case env_int env (form_get form ''chart_type'' ''2'') of
        None \<Rightarrow> (Inl ValueError, [])
      | Some chart_type \<Rightarrow>
     (case env_int env (form_get form ''time_series'' ''2'') of
        None \<Rightarrow> (Inl ValueError, [])
      | Some ts \<Rightarrow>
          let start_date_str = py_strip (form_get form ''start_date'' []);
              end_date_str = py_strip (form_get form ''end_date'' [])
          in
            if symb = []
            then (Inr (flash_page env symb ''Please select a stock symbol.'' ''error''), [])
            else if start_date_str = [] \<or> end_date_str = []
            then (Inr (flash_page env symb ''Please provide both start and end dates.''
                         ''error''), [])
            else
     (case validate_date_format start_date_str of
        Inl e \<Rightarrow> (Inl e, [])
      | Inr start_opt \<Rightarrow>
     (case validate_date_format end_date_str of
        Inl e \<Rightarrow> (Inl e, [])
      | Inr end_opt \<Rightarrow>
     (case (start_opt, end_opt) of
        (Some start_date, Some end_date) \<Rightarrow>
          if \<not> validate_date_range start_date end_date
          then (Inr (flash_page env symb range_message ''error''), [])
          else fetch_and_render env symb chart_type ts start_date_str end_date_str
                 start_date end_date
      | _ \<Rightarrow>
          (Inr (flash_page env symb ''Invalid date format. Please use YYYY-MM-DD.''
                  ''error''), [])))))))"

section \<open>Notions of the specification\<close>

text \<open>
  Following the spec's words, ``formatting a date as \<open>YYYY-MM-DD\<close>'': the year on four
  digits, the month and the day on two, zero-padded.
\<close>

definition digit_char :: "nat \<Rightarrow> char" where
  "digit_char n = char_of (48 + n)"

definition pad2 :: "nat \<Rightarrow> string" where
  "pad2 n = [digit_char (n div 10 mod 10), digit_char (n mod 10)]"

definition pad4 :: "nat \<Rightarrow> string" where
  "pad4 n = [digit_char (n div 1000 mod 10), digit_char (n div 100 mod 10),
             digit_char (n div 10 mod 10), digit_char (n mod 10)]"

definition format_ymd :: "datetime \<Rightarrow> string" where
  "format_ymd d = pad4 (year d) @ ''-'' @ pad2 (month d) @ ''-'' @ pad2 (day d)"

text \<open>
  Following the spec's words, a date string that is not malformed: a spelling of a calendar
  date in the order year, month, day with dashes between. The format \<open>%Y-%m-%d\<close> reads
  the year on four digits and the month and the day on two digits or without the leading
  zero, the day also with a space in its place.
\<close>

definition month_spellings :: "nat \<Rightarrow> string list" where
  "month_spellings m = (if m < 10 then [pad2 m, [digit_char m]] else [pad2 m])"

definition day_spellings :: "nat \<Rightarrow> string list" where
  "day_spellings d =
     (if d < 10 then [pad2 d, [digit_char d], [CHR '' '', digit_char d]] else [pad2 d])"

definition date_spellings :: "datetime \<Rightarrow> string list" where
  "date_spellings d =
     concat (map (\<lambda>ms. map (\<lambda>ds. pad4 (year d) @ ''-'' @ ms @ ''-'' @ ds)
                            (day_spellings (day d)))
                 (month_spellings (month d)))"


text \<open>
  Following the spec's words, an entry whose ``date component satisfies \<open>s \<le> d \<le> e\<close>'':
  the date of its key lies in the range, both ends included.
\<close>

definition in_range :: "datetime \<Rightarrow> datetime \<Rightarrow> string \<Rightarrow> bool" where
  "in_range s e k =
     (case key_date k of Inl _ \<Rightarrow> False | Inr d \<Rightarrow> date_le s d \<and> date_le d e)"


text \<open>
  Following the spec's words, a chart specification: a title, the chart kind, the category
  labels, the datasets, each with a label, its values, two colours and its fill style, the
  titles of the value axis and of the category axis, the rotation of the category tick
  labels and whether the legend shows.
\<close>

datatype chart_kind = Bar | Line

record 'n dataset =
  ds_label :: string
  ds_data :: "'n list"
  ds_border_color :: string
  ds_background_color :: string
  ds_fill :: bool

record 'n chart_spec =
  cs_title :: string
  cs_kind :: chart_kind
  cs_labels :: "string list"
  cs_datasets :: "'n dataset list"
  cs_value_axis_title :: string
  cs_category_axis_title :: string
  cs_tick_rotation :: nat
  cs_legend_display :: bool

text \<open>The page that shows a chart specification with Chart.js.\<close>

definition kind_name :: "chart_kind \<Rightarrow> string" where
  "kind_name k = (case k of Bar \<Rightarrow> ''bar'' | Line \<Rightarrow> ''line'')"

definition js_bool :: "bool \<Rightarrow> string" where
  "js_bool b = (if b then ''true'' else ''false'')"

definition render_dataset :: "('n \<Rightarrow> string) \<Rightarrow> 'n dataset \<Rightarrow> string" where
  "render_dataset repr_num ds =
     concat [
       ''                        {\<newline>'',
       ''                            label: '' @ [CHR 0x27] @ ds_label ds @ [CHR 0x27] @ '',\<newline>'',
       ''                            data: '' @ py_list_str repr_num (ds_data ds) @ '',\<newline>'',
       ''                            borderColor: '' @ [CHR 0x27] @ ds_border_color ds @ [CHR 0x27] @ '',\<newline>'',
       ''                            backgroundColor: '' @ [CHR 0x27] @ ds_background_color ds @ [CHR 0x27] @ '',\<newline>'',
       ''                            fill: '' @ js_bool (ds_fill ds) @ ''\<newline>'',
       ''                        }''
     ]"

definition render_chart ::
  \<open>(string \<Rightarrow> string) \<Rightarrow> ('n \<Rightarrow> string) \<Rightarrow> 'n chart_spec \<Rightarrow> string\<close> where
  \<open>render_chart repr_str repr_num spec =
     concat [
       ''\<newline>'',
       ''        <div class="chart-container" style="position: relative; height:600px;">\<newline>'',
       ''            <h2>'' @ cs_title spec @ ''</h2>\<newline>'',
       ''            <canvas id="stockChart"></canvas>\<newline>'',
       ''        </div>\<newline>'',
       ''        <script src="https://cdn.jsdelivr.net/npm/chart.js"></script>\<newline>'',
       ''        <script>\<newline>'',
       ''            const ctx = document.getElementById('stockChart').getContext('2d');\<newline>'',
       ''            new Chart(ctx, {\<newline>'',
       ''                type: '' @ [CHR 0x27] @ kind_name (cs_kind spec) @ [CHR 0x27] @ '',\<newline>'',
       ''                data: {\<newline>'',
       ''                    labels: '' @ py_list_str repr_str (cs_labels spec) @ '',\<newline>'',
       ''                    datasets: [\<newline>'',
       join '',\<newline>'' (map (render_dataset repr_num) (cs_datasets spec)) @ ''\<newline>'',
       ''                    ]\<newline>'',
       ''                },\<newline>'',
       ''                options: {\<newline>'',
       ''                    responsive: true,\<newline>'',
       ''                    maintainAspectRatio: false,\<newline>'',
       ''                    scales: {\<newline>'',
       ''                        y: {\<newline>'',
       ''                            beginAtZero: false,\<newline>'',
       ''                            title: {\<newline>'',
       ''                                display: true,\<newline>'',
       ''                                text: '' @ [CHR 0x27] @ cs_value_axis_title spec @ [CHR 0x27] @ ''\<newline>'',
       ''                            }\<newline>'',
       ''                        },\<newline>'',
       ''                        x: {\<newline>'',
       ''                            title: {\<newline>'',
       ''                                display: true,\<newline>'',
       ''                                text: '' @ [CHR 0x27] @ cs_category_axis_title spec @ [CHR 0x27] @ ''\<newline>'',
       ''                            },\<newline>'',
       ''                            ticks: {\<newline>'',
       ''                                maxRotation: '' @ str_nat (cs_tick_rotation spec) @ '',\<newline>'',
       ''                                minRotation: '' @ str_nat (cs_tick_rotation spec) @ ''\<newline>'',
       ''                            }\<newline>'',
       ''                        }\<newline>'',
       ''                    },\<newline>'',
       ''                    plugins: {\<newline>'',
       ''                        legend: {\<newline>'',
       ''                            display: '' @ js_bool (cs_legend_display spec) @ '',\<newline>'',
       ''                            position: 'top'\<newline>'',
       ''                        }\<newline>'',
       ''                    }\<newline>'',
       ''                }\<newline>'',
       ''            });\<newline>'',
       ''        </script>\<newline>'',
       ''        ''
     ]\<close>

text \<open>
  Following the spec's words, the chart of a series: its dates as labels, four datasets
  for open, high, low and close, each with its own colour and not filled, axes titled
  with the price and the date, tick labels rotated 45 degrees, the legend shown, and a
  title with the symbol and the date range as displayed.
\<close>

definition stock_chart_spec ::
  "'n formatted \<Rightarrow> string \<Rightarrow> int \<Rightarrow> string \<Rightarrow> string \<Rightarrow> 'n chart_spec" where
  "stock_chart_spec data symb chart_type start_date end_date =
     \<lparr>cs_title = ''Stock Data for '' @ symb @ '': '' @ start_date @ '' to '' @ end_date,
      cs_kind = (if chart_type = 1 then Bar else Line),
      cs_labels = dates data,
      cs_datasets =
        [\<lparr>ds_label = ''Open'', ds_data = open data, ds_border_color = ''rgba(255,99,132,1)'',
           ds_background_color = ''rgba(255,99,132,0.25)'', ds_fill = False\<rparr>,
         \<lparr>ds_label = ''High'', ds_data = high data, ds_border_color = ''rgba(54,162,235,1)'',
           ds_background_color = ''rgba(54,162,235,0.25)'', ds_fill = False\<rparr>,
         \<lparr>ds_label = ''Low'', ds_data = low data, ds_border_color = ''rgba(75,192,192,1)'',
           ds_background_color = ''rgba(75,192,192,0.25)'', ds_fill = False\<rparr>,
         \<lparr>ds_label = ''Close'', ds_data = close data, ds_border_color = ''rgba(255,206,86,1)'',
           ds_background_color = ''rgba(255,206,86,0.25)'', ds_fill = False\<rparr>],
      cs_value_axis_title = ''Price ($)'',
      cs_category_axis_title = ''Date'',
      cs_tick_rotation = 45,
      cs_legend_display = True\<rparr>"

section \<open>Example data\<close>

text \<open>
  A daily response in the shape the API sends, with one timestamp of the intraday shape,
  and a response one of whose keys is not a date.
\<close>

definition example_entry :: "string \<Rightarrow> nat json" where
  "example_entry price =
     JObj [(''1. open'', JStr price), (''2. high'', JStr price), (''3. low'', JStr price),
           (''4. close'', JStr price), (''5. volume'', JStr ''100'')]"

definition example_items :: "(string \<times> nat json) list" where
  "example_items =
     [(''2024-01-05'', example_entry ''4''),
      (''2024-01-03 16:00:00'', example_entry ''3''),
      (''2024-01-02'', example_entry ''2''),
      (''2023-12-29'', example_entry ''1'')]"

definition example_raw :: "nat json" where
  "example_raw =
     JObj [(''Meta Data'', JObj [(''2. Symbol'', JStr ''IBM'')]),
           (''Time Series (Daily)'', JObj example_items)]"

definition example_bad_raw :: "nat json" where
  "example_bad_raw =
     JObj [(''Time Series (Daily)'',
            JObj [(''2024-01-02'', example_entry ''2''), (''2024-13-40'', example_entry ''3'')])]"

text \<open>A stand-in for \<open>float\<close>: it reads a string of one digit, and keeps a number.\<close>

definition example_float :: "nat json \<Rightarrow> error + nat" where
  "example_float x =
     (case x of
        JStr s \<Rightarrow> (case s of [c] \<Rightarrow> if is_digit c then Inr (digit_val c) else Inl ValueError
                   | _ \<Rightarrow> Inl ValueError)
      | JNum n \<Rightarrow> Inr n
      | _ \<Rightarrow> Inl TypeError)"

text \<open>The object after the entries of 2 and 3 January 2024 were retained.\<close>

definition example_filtered :: "nat stock_data" where
  "example_filtered =
     (StockData ''IBM'' example_raw 2)
       \<lparr>filtered_data := [(''2024-01-03 16:00:00'', example_entry ''3''),
                           (''2024-01-02'', example_entry ''2'')]\<rparr>"

text \<open>
  Surroundings for the route: \<open>int\<close> and \<open>upper\<close> stand-ins that read one digit and
  raise the ASCII letters, a network that answers every request with the daily response.
\<close>

definition example_int :: "string \<Rightarrow> int option" where
  "example_int s =
     (case s of [c] \<Rightarrow> if is_digit c then Some (int (digit_val c)) else None | _ \<Rightarrow> None)"

definition example_upper :: "string \<Rightarrow> string" where
  "example_upper s =
     map (\<lambda>c. if cls CHR ''a'' CHR ''z'' c then char_of (of_char c - (32::nat)) else c) s"

definition example_env :: "nat environment" where
  "example_env =
     \<lparr>env_int = example_int, env_upper = example_upper, env_float = example_float,
      env_bool = (\<lambda>n. n \<noteq> 0), env_repr_str = (\<lambda>s. [CHR 0x27] @ s @ [CHR 0x27]),
      env_repr_num = str_nat, env_http_get = (\<lambda>r. Response True (Some example_raw)),
      env_API_KEY = ''demo'', env_symbols = [''AAPL'', ''IBM'']\<rparr>"

definition example_form :: "string \<Rightarrow> string \<Rightarrow> (string \<times> string) list" where
  "example_form start_date end_date =
     [(''symbol'', ''ibm ''), (''chart_type'', ''1''), (''time_series'', ''2''),
      (''start_date'', start_date), (''end_date'', end_date)]"

definition jan :: "nat \<Rightarrow> datetime" where
  "jan d = \<lparr>year = 2024, month = 1, day = d\<rparr>"

section \<open>The date filter\<close>

lemma dict_set_fresh: "k \<notin> fst ` set acc \<Longrightarrow> dict_set acc k v = acc @ [(k, v)]"
  by (induction acc k v rule: dict_set.induct) auto

lemma filter_loop_filter:
  assumes "\<forall>k \<in> fst ` set items. \<exists>d. key_date k = Inr d"
    and "distinct (map fst items)"
    and "fst ` set acc \<inter> fst ` set items = {}"
  shows "filter_loop s e items acc = Inr (acc @ filter (\<lambda>(k, v). in_range s e k) items)"
  using assms
proof (induction items arbitrary: acc)
  case Nil
  then show ?case by simp
next
  case (Cons kv items)
  obtain k v where kv: "kv = (k, v)" by (cases kv)
  from Cons.prems(1) kv obtain d where d: "key_date k = Inr d" by auto
  let ?acc = "if date_le s d \<and> date_le d e then dict_set acc k v else acc"
  have fresh: "k \<notin> fst ` set acc" using Cons.prems(3) kv by auto
  have acc': "?acc = acc @ (if in_range s e k then [(k, v)] else [])"
    using fresh d by (simp add: dict_set_fresh in_range_def)
  have disj: "fst ` set ?acc \<inter> fst ` set items = {}"
  proof -
    have "k \<notin> fst ` set items" using Cons.prems(2) kv by (auto simp: image_iff)
    moreover have "fst ` set acc \<inter> fst ` set items = {}" using Cons.prems(3) by auto
    moreover have "fst ` set ?acc \<subseteq> insert k (fst ` set acc)"
      unfolding acc' by auto
    ultimately show ?thesis by blast
  qed
  have "filter_loop s e (kv # items) acc = filter_loop s e items ?acc"
    using d kv by simp
  also have "\<dots> = Inr (?acc @ filter (\<lambda>(k, v). in_range s e k) items)"
    using Cons.prems(1,2) disj by (intro Cons.IH) auto
  finally show ?case using kv by (simp add: acc')
qed

lemma filter_loop_total:
  "(\<exists>r. filter_loop s e items acc = Inr r) \<longleftrightarrow> (\<forall>k \<in> fst ` set items. \<exists>d. key_date k = Inr d)"
proof (induction items arbitrary: acc)
  case Nil
  then show ?case by simp
next
  case (Cons kv items)
  obtain k v where kv: "kv = (k, v)" by (cases kv)
  show ?case
  proof (cases "key_date k")
    case (Inl err)
    then show ?thesis using kv by auto
  next
    case (Inr d)
    then show ?thesis using kv Cons.IH by simp
  qed
qed

lemma strptime_error: "strptime s = Inl err \<Longrightarrow> err = ValueError"
  by (simp add: strptime_def Let_def split: list.splits prod.splits if_splits)

lemma key_date_error: "key_date k = Inl err \<Longrightarrow> err = ValueError \<or> err = IndexError"
  by (auto simp: key_date_def index0_def split: list.splits dest: strptime_error)

lemma filter_loop_error:
  "filter_loop s e items acc = Inl err \<Longrightarrow> err = ValueError \<or> err = IndexError"
proof (induction items arbitrary: acc)
  case Nil
  then show ?case by simp
next
  case (Cons kv items)
  obtain k v where kv: "kv = (k, v)" by (cases kv)
  show ?case
  proof (cases "key_date k")
    case (Inl err')
    then show ?thesis using kv Cons.prems key_date_error by auto
  next
    case (Inr d)
    then show ?thesis using kv Cons by simp
  qed
qed


lemma filter_by_date_range_items:
  assumes "map_of time_series_key_map (time_series self) = Some key"
    and "raw_data self = JObj resp"
    and "map_of resp key = Some (JObj items)"
  shows "filter_by_date_range self s e =
           (case filter_loop s e items [] of
              Inl err \<Rightarrow> Inl err
            | Inr fd \<Rightarrow> Inr (fd, self\<lparr>filtered_data := fd\<rparr>))"
  using assms by (simp add: filter_by_date_range_def py_in_def py_getitem_def py_items_def)

text \<open>The definitions that evaluate \<open>strptime\<close> and \<open>key_date\<close> on a given string.\<close>

lemmas parse_defs = strptime_def regex_matches_def group_Y_def group_m_def group_d_def lit_def
  is_digit_def cls_def digit_val_def valid_date_def days_in_month_def is_leap_def

lemmas key_defs = key_date_def index0_def py_split.simps is_space_def

lemma key_date_examples:
  "key_date ''2024-01-05'' = Inr (jan 5)"
  "key_date ''2024-01-03 16:00:00'' = Inr (jan 3)"
  "key_date ''2024-01-02'' = Inr (jan 2)"
  "key_date ''2023-12-29'' = Inr \<lparr>year = 2023, month = 12, day = 29\<rparr>"
  "key_date ''2024-13-40'' = Inl ValueError"
  by (simp_all add: key_defs parse_defs jan_def)

text \<open>
  Claim C1. For a response whose time series is a dict (distinct keys) each of whose keys
  has a date component, \<open>filter_by_date_range\<close> returns, and stores in the object,
  exactly the entries whose date \<open>d\<close> satisfies \<open>s \<le> d \<le> e\<close>, in their order; the time of
  day plays no part, entries outside the range are dropped, and entries dated \<open>s\<close> or
  \<open>e\<close> are kept.
\<close>

theorem C1_filter_keeps_dates_in_range:
  assumes "map_of time_series_key_map (time_series self) = Some key"
    and "raw_data self = JObj resp"
    and "map_of resp key = Some (JObj items)"
    and "distinct (map fst items)"
    and "\<forall>k \<in> fst ` set items. \<exists>d. key_date k = Inr d"
  shows "\<exists>fd. filter_by_date_range self s e = Inr (fd, self\<lparr>filtered_data := fd\<rparr>) \<and>
           fd = filter (\<lambda>(k, v). in_range s e k) items \<and>
           (\<forall>k v. (k, v) \<in> set fd \<longleftrightarrow>
                  (k, v) \<in> set items \<and>
                  (\<exists>d. key_date k = Inr d \<and> date_le s d \<and> date_le d e)) \<and>
           (date_le s e \<longrightarrow>
              (\<forall>k v. (k, v) \<in> set items \<and> (key_date k = Inr s \<or> key_date k = Inr e)
                     \<longrightarrow> (k, v) \<in> set fd))"
proof -
  let ?fd = "filter (\<lambda>(k, v). in_range s e k) items"
  have loop: "filter_loop s e items [] = Inr ?fd"
    using filter_loop_filter [OF assms(5) assms(4), of "[]" s e] by simp
  have run: "filter_by_date_range self s e = Inr (?fd, self\<lparr>filtered_data := ?fd\<rparr>)"
    using filter_by_date_range_items [OF assms(1-3)] loop by simp
  have mem: "(k, v) \<in> set ?fd \<longleftrightarrow>
               (k, v) \<in> set items \<and> (\<exists>d. key_date k = Inr d \<and> date_le s d \<and> date_le d e)"
    for k v
    by (auto simp: in_range_def split: sum.splits)
  have refl: "date_le d d" for d by (simp add: date_le_def)
  have bound: "date_le s e \<longrightarrow>
      (\<forall>k v. (k, v) \<in> set items \<and> (key_date k = Inr s \<or> key_date k = Inr e)
             \<longrightarrow> (k, v) \<in> set ?fd)"
    using refl by (auto simp: in_range_def)
  show ?thesis using run mem bound by blast
qed

theorem C1_witness:
  "filter_by_date_range (StockData ''IBM'' example_raw 2) (jan 2) (jan 3) =
     Inr ([(''2024-01-03 16:00:00'', example_entry ''3''), (''2024-01-02'', example_entry ''2'')],
          (StockData ''IBM'' example_raw 2)
            \<lparr>filtered_data := [(''2024-01-03 16:00:00'', example_entry ''3''),
                                (''2024-01-02'', example_entry ''2'')]\<rparr>)"
proof -
  let ?self = "StockData ''IBM'' example_raw 2 :: nat stock_data"
  have h1: "map_of time_series_key_map (time_series ?self) = Some ''Time Series (Daily)''"
    by (simp add: StockData_def time_series_key_map_def)
  have h2: "raw_data ?self = JObj [(''Meta Data'', JObj [(''2. Symbol'', JStr ''IBM'')]),
           (''Time Series (Daily)'', JObj example_items)]"
    by (simp add: StockData_def example_raw_def)
  have h3: "map_of [(''Meta Data'', JObj [(''2. Symbol'', JStr ''IBM'')]),
           (''Time Series (Daily)'', JObj example_items)] ''Time Series (Daily)'' = Some (JObj example_items)"
    by simp
  have h4: "distinct (map fst example_items)"
    by (simp add: example_items_def)
  have h5: "\<forall>k \<in> fst ` set example_items. \<exists>d. key_date k = Inr d"
    by (simp add: example_items_def key_date_examples)
  have le: "date_le (jan 2) (jan 3)" "date_le (jan 2) (jan 2)" "date_le (jan 3) (jan 3)"
     "\<not> date_le (jan 5) (jan 3)" "\<not> date_le (jan 2) \<lparr>year = 2023, month = 12, day = 29\<rparr>"
    by (simp_all add: date_le_def date_tuple_def jan_def)
  show ?thesis
    using C1_filter_keeps_dates_in_range [OF h1 h2 h3 h4 h5, of "jan 2" "jan 3"] le
    by (simp add: example_items_def in_range_def key_date_examples)
qed

text \<open>
  Claim C10. Once the time series is found, \<open>filter_by_date_range\<close> returns if and only
  if every key has a first whitespace-separated token that \<open>strptime\<close> reads as a
  date; a key without a token or with a token that is no date makes the call raise
  IndexError or ValueError, whatever the range: the entry is not skipped and the result
  is not the empty dict.
\<close>

theorem C10_filter_returns_iff_keys_parse:
  assumes "map_of time_series_key_map (time_series self) = Some key"
    and "raw_data self = JObj resp"
    and "map_of resp key = Some (JObj items)"
  shows "((\<exists>r. filter_by_date_range self s e = Inr r) \<longleftrightarrow>
            (\<forall>k \<in> fst ` set items.
               \<exists>tok rest d. py_split k = tok # rest \<and> strptime tok = Inr d)) \<and>
         ((\<exists>k \<in> fst ` set items.
             py_split k = [] \<or> (\<exists>tok rest. py_split k = tok # rest \<and> strptime tok = Inl ValueError))
           \<longrightarrow> filter_by_date_range self s e = Inl ValueError \<or>
               filter_by_date_range self s e = Inl IndexError)"
proof -
  have kd: "(\<exists>d. key_date k = Inr d) \<longleftrightarrow>
            (\<exists>tok rest d. py_split k = tok # rest \<and> strptime tok = Inr d)" for k
    by (auto simp: key_date_def index0_def split: list.splits)
  have run: "filter_by_date_range self s e =
           (case filter_loop s e items [] of
              Inl err \<Rightarrow> Inl err
            | Inr fd \<Rightarrow> Inr (fd, self\<lparr>filtered_data := fd\<rparr>))"
    by (rule filter_by_date_range_items [OF assms])
  have "(\<exists>r. filter_by_date_range self s e = Inr r) \<longleftrightarrow> (\<exists>r. filter_loop s e items [] = Inr r)"
    unfolding run by (auto split: sum.splits)
  then have iff: "(\<exists>r. filter_by_date_range self s e = Inr r) \<longleftrightarrow>
            (\<forall>k \<in> fst ` set items.
               \<exists>tok rest d. py_split k = tok # rest \<and> strptime tok = Inr d)"
    using filter_loop_total [of s e items "[]"] kd by simp
  have bad: "filter_by_date_range self s e = Inl ValueError \<or>
             filter_by_date_range self s e = Inl IndexError"
    if "\<exists>k \<in> fst ` set items.
             py_split k = [] \<or> (\<exists>tok rest. py_split k = tok # rest \<and> strptime tok = Inl ValueError)"
  proof -
    from that have "\<not> (\<forall>k \<in> fst ` set items.
               \<exists>tok rest d. py_split k = tok # rest \<and> strptime tok = Inr d)"
      by force
    with iff have "\<not> (\<exists>r. filter_by_date_range self s e = Inr r)" by simp
    then obtain err where err: "filter_by_date_range self s e = Inl err"
      by (cases "filter_by_date_range self s e") auto
    then have "filter_loop s e items [] = Inl err"
      unfolding run by (auto split: sum.splits)
    then have "err = ValueError \<or> err = IndexError" by (rule filter_loop_error)
    with err show ?thesis by auto
  qed
  show ?thesis using iff bad by blast
qed

theorem C10_witness:
  "filter_by_date_range (StockData ''IBM'' example_bad_raw 2) (jan 2) (jan 3) = Inl ValueError \<or>
   filter_by_date_range (StockData ''IBM'' example_bad_raw 2) (jan 2) (jan 3) = Inl IndexError"
proof -
  let ?self = "StockData ''IBM'' example_bad_raw 2 :: nat stock_data"
  let ?items = "[(''2024-01-02'', example_entry ''2''), (''2024-13-40'', example_entry ''3'')]"
  have h1: "map_of time_series_key_map (time_series ?self) = Some ''Time Series (Daily)''"
    by (simp add: StockData_def time_series_key_map_def)
  have h2: "raw_data ?self = JObj [(''Time Series (Daily)'', JObj ?items)]"
    by (simp add: StockData_def example_bad_raw_def)
  have h3: "map_of [(''Time Series (Daily)'', JObj ?items)] ''Time Series (Daily)'' = Some (JObj ?items)"
    by simp
  have sp: "py_split ''2024-13-40'' = [''2024-13-40'']"
    by (simp add: py_split.simps is_space_def)
  have st: "strptime ''2024-13-40'' = Inl ValueError"
    by (simp add: parse_defs)
  have bad: "\<exists>k \<in> fst ` set ?items.
             py_split k = [] \<or> (\<exists>tok rest. py_split k = tok # rest \<and> strptime tok = Inl ValueError)"
    using sp st by simp
  show ?thesis
    using C10_filter_returns_iff_keys_parse [OF h1 h2 h3, of "jan 2" "jan 3"] bad by blast
qed

section \<open>The request sent to the API\<close>

text \<open>
  A dict is classified without an exception; a string that holds the text ``Note'' makes
  the message printed raise TypeError.
\<close>

lemma classify_reply_dict:
  "classify_reply (Response True (Some (JObj kvs))) =
     Inr (if map_of kvs ''Error Message'' \<noteq> None \<or> map_of kvs ''Note'' \<noteq> None then None
          else Some (JObj kvs))"
  by (cases "map_of kvs ''Error Message''"; cases "map_of kvs ''Note''")
    (simp_all add: classify_reply_def py_in_def py_getitem_def)

lemma classify_reply_string:
  "classify_reply (Response True (Some (JStr ''API Note: slow down''))) = Inl TypeError"
  by (simp add: classify_reply_def py_in_def py_getitem_def)

lemma function_map_cases:
  "g \<in> {1, 2, 3, 4} \<Longrightarrow>
     map_of function_map g =
       Some (if g = 1 then ''TIME_SERIES_INTRADAY'' else if g = 2 then ''TIME_SERIES_DAILY''
             else if g = 3 then ''TIME_SERIES_WEEKLY'' else ''TIME_SERIES_MONTHLY'')"
  by (auto simp: function_map_def)

text \<open>
  Claim C5. For a granularity code 1, 2, 3 or 4, \<open>fetch_stock_data\<close> sends one request
  to the base URL whose parameters hold the function name of the code
  (TIME_SERIES_INTRADAY, TIME_SERIES_DAILY, TIME_SERIES_WEEKLY, TIME_SERIES_MONTHLY), the
  symbol, the API key and outputsize=full; the interval parameter, 60min, is present
  exactly when the code is 1.
\<close>

theorem C5_fetch_request_parameters:
  assumes "g \<in> {1, 2, 3, 4}"
  shows "\<exists>params.
           fetch_stock_data http_get api_key symb g log =
             (classify_reply (http_get (BASE_URL, params)), log @ [(BASE_URL, params)]) \<and>
           map_of params ''function'' =
             Some (if g = 1 then ''TIME_SERIES_INTRADAY'' else if g = 2 then ''TIME_SERIES_DAILY''
                   else if g = 3 then ''TIME_SERIES_WEEKLY'' else ''TIME_SERIES_MONTHLY'') \<and>
           map_of params ''symbol'' = Some symb \<and>
           map_of params ''apikey'' = Some api_key \<and>
           map_of params ''outputsize'' = Some ''full'' \<and>
           (map_of params ''interval'' = Some ''60min'' \<longleftrightarrow> g = 1) \<and>
           (''interval'' \<in> fst ` set params \<longleftrightarrow> g = 1)"
  using function_map_cases [OF assms]
  by (auto simp: fetch_stock_data_def build_params_def Let_def)

theorem C5_witness:
  "\<exists>params.
     fetch_stock_data (\<lambda>r. RequestException :: nat http_reply) ''demo'' ''IBM'' 1 [] =
       (Inr None, [(BASE_URL, params)]) \<and>
     map_of params ''function'' = Some ''TIME_SERIES_INTRADAY'' \<and>
     map_of params ''outputsize'' = Some ''full'' \<and>
     map_of params ''interval'' = Some ''60min''"
proof -
  have g: "(1::int) \<in> {1, 2, 3, 4}" by simp
  show ?thesis
    using C5_fetch_request_parameters [OF g, of "\<lambda>r. RequestException :: nat http_reply" "''demo''" "''IBM''" "[]"]
    by (auto simp: classify_reply_def)
qed

section \<open>The formatted series\<close>

lemma format_loop_lengths:
  "format_loop fl fd ks acc = Inr f \<Longrightarrow>
     length (dates f) = length (dates acc) + length ks \<and>
     length (open f) = length (open acc) + length ks \<and>
     length (high f) = length (high acc) + length ks \<and>
     length (low f) = length (low acc) + length ks \<and>
     length (close f) = length (close acc) + length ks"
proof (induction ks arbitrary: acc)
  case Nil
  then show ?case by simp
next
  case (Cons k ks)
  from Cons.prems obtain acc' where
    step: "format_loop fl fd ks acc' = Inr f" and
    len: "length (dates acc') = Suc (length (dates acc))"
         "length (open acc') = Suc (length (open acc))"
         "length (high acc') = Suc (length (high acc))"
         "length (low acc') = Suc (length (low acc))"
         "length (close acc') = Suc (length (close acc))"
    by (auto split: option.splits sum.splits)
  from Cons.IH [OF step] len show ?case by simp
qed

text \<open>An entry the loop gets through: its key has a token and \<open>float\<close> reads its four fields.\<close>

lemma format_loop_returns:
  assumes "\<forall>k \<in> set ks. \<exists>values. map_of fd k = Some values \<and> py_split k \<noteq> [] \<and>
             (\<forall>field \<in> {''1. open'', ''2. high'', ''3. low'', ''4. close''}.
                \<exists>x. float_field fl values field = Inr x)"
  shows "\<exists>f. format_loop fl fd ks acc = Inr f"
  using assms
proof (induction ks arbitrary: acc)
  case Nil
  then show ?case by simp
next
  case (Cons k ks)
  from Cons.prems have "\<exists>values. map_of fd k = Some values \<and> py_split k \<noteq> [] \<and>
             (\<forall>field \<in> {''1. open'', ''2. high'', ''3. low'', ''4. close''}.
                \<exists>x. float_field fl values field = Inr x)"
    by simp
  then obtain vals where
    v: "map_of fd k = Some vals" and
    ne: "py_split k \<noteq> []" and
    fl: "\<forall>field \<in> {''1. open'', ''2. high'', ''3. low'', ''4. close''}.
                \<exists>x. float_field fl vals field = Inr x"
    by blast
  from ne obtain tok rest where t: "py_split k = tok # rest"
    by (cases "py_split k") auto
  from fl obtain ov where f1: "float_field fl vals ''1. open'' = Inr ov" by auto
  from fl obtain hv where f2: "float_field fl vals ''2. high'' = Inr hv" by auto
  from fl obtain lv where f3: "float_field fl vals ''3. low'' = Inr lv" by auto
  from fl obtain cv where f4: "float_field fl vals ''4. close'' = Inr cv" by auto
  have rest: "\<forall>k \<in> set ks. \<exists>values. map_of fd k = Some values \<and> py_split k \<noteq> [] \<and>
             (\<forall>field \<in> {''1. open'', ''2. high'', ''3. low'', ''4. close''}.
                \<exists>x. float_field fl values field = Inr x)"
    using Cons.prems by simp
  show ?case
    using v t f1 f2 f3 f4 Cons.IH [OF rest] by (simp add: index0_def)
qed


text \<open>
  Claim C2. Whatever the retained entries are, \<open>get_formatted_data\<close> returns None
  exactly when no entry was retained, and the five lists of a result (dates, open, high,
  low, close) each have as many elements as entries were retained. It does return when
  every retained key has a token and \<open>float\<close> reads the four fields of every entry.
\<close>

theorem C2_formatted_lengths:
  "(get_formatted_data fl self = Inr None \<longleftrightarrow> filtered_data self = []) \<and>
   (\<forall>f. get_formatted_data fl self = Inr (Some f) \<longrightarrow>
      length (dates f) = length (filtered_data self) \<and>
      length (open f) = length (filtered_data self) \<and>
      length (high f) = length (filtered_data self) \<and>
      length (low f) = length (filtered_data self) \<and>
      length (close f) = length (filtered_data self)) \<and>
   ((\<forall>(k, vals) \<in> set (filtered_data self).
       py_split k \<noteq> [] \<and>
       (\<forall>field \<in> {''1. open'', ''2. high'', ''3. low'', ''4. close''}.
          \<exists>x. float_field fl vals field = Inr x))
     \<longrightarrow> (\<exists>r. get_formatted_data fl self = Inr r))"
proof -
  let ?fd = "filtered_data self"
  let ?ks = "sort (map fst ?fd)"
  let ?acc = "\<lparr>dates = [], open = [], high = [], low = [], close = []\<rparr> :: 'a formatted"
  have none: "get_formatted_data fl self = Inr None \<longleftrightarrow> ?fd = []"
    by (auto simp: get_formatted_data_def split: sum.splits)
  have lens: "length (dates f) = length ?fd \<and> length (open f) = length ?fd \<and>
              length (high f) = length ?fd \<and> length (low f) = length ?fd \<and>
              length (close f) = length ?fd"
    if "get_formatted_data fl self = Inr (Some f)" for f
  proof -
    from that have "format_loop fl ?fd ?ks ?acc = Inr f"
      by (auto simp: get_formatted_data_def split: if_splits sum.splits)
    from format_loop_lengths [OF this] show ?thesis by simp
  qed
  have ret: "\<exists>r. get_formatted_data fl self = Inr r"
    if ok: "\<forall>(k, vals) \<in> set ?fd.
       py_split k \<noteq> [] \<and>
       (\<forall>field \<in> {''1. open'', ''2. high'', ''3. low'', ''4. close''}.
          \<exists>x. float_field fl vals field = Inr x)"
  proof -
    have "\<exists>vals. map_of ?fd k = Some vals \<and> py_split k \<noteq> [] \<and>
             (\<forall>field \<in> {''1. open'', ''2. high'', ''3. low'', ''4. close''}.
                \<exists>x. float_field fl vals field = Inr x)"
      if "k \<in> set ?ks" for k
    proof -
      from that have "k \<in> fst ` set ?fd" by simp
      then obtain vals where v: "map_of ?fd k = Some vals"
        by (cases "map_of ?fd k") (auto simp: map_of_eq_None_iff)
      then have "(k, vals) \<in> set ?fd" by (rule map_of_SomeD)
      with ok v show ?thesis by blast
    qed
    then have "\<exists>f. format_loop fl ?fd ?ks ?acc = Inr f"
      by (intro format_loop_returns) blast
    then show ?thesis
      by (auto simp: get_formatted_data_def)
  qed
  show ?thesis using none lens ret by blast
qed

lemma example_float_fields:
  "float_field example_float (example_entry [c]) ''1. open'' = (if is_digit c then Inr (digit_val c) else Inl ValueError)"
  "float_field example_float (example_entry [c]) ''2. high'' = (if is_digit c then Inr (digit_val c) else Inl ValueError)"
  "float_field example_float (example_entry [c]) ''3. low'' = (if is_digit c then Inr (digit_val c) else Inl ValueError)"
  "float_field example_float (example_entry [c]) ''4. close'' = (if is_digit c then Inr (digit_val c) else Inl ValueError)"
  by (simp_all add: float_field_def example_float_def example_entry_def py_getitem_def)

theorem C2_witness:
  "\<exists>f. get_formatted_data example_float example_filtered = Inr (Some f) \<and>
       length (dates f) = 2 \<and> length (open f) = 2 \<and> length (high f) = 2 \<and>
       length (low f) = 2 \<and> length (close f) = 2"
proof -
  have fd: "filtered_data example_filtered =
      [(''2024-01-03 16:00:00'', example_entry ''3''), (''2024-01-02'', example_entry ''2'')]"
    by (simp add: example_filtered_def)
  have sp: "py_split ''2024-01-03 16:00:00'' \<noteq> []" "py_split ''2024-01-02'' \<noteq> []"
    by (simp_all add: py_split.simps is_space_def)
  have ok: "\<forall>(k, vals) \<in> set (filtered_data example_filtered).
       py_split k \<noteq> [] \<and>
       (\<forall>field \<in> {''1. open'', ''2. high'', ''3. low'', ''4. close''}.
          \<exists>x. float_field example_float vals field = Inr x)"
    by (simp add: fd sp example_float_fields is_digit_def cls_def)
  note main = C2_formatted_lengths [of example_float example_filtered]
  from main ok obtain r where r: "get_formatted_data example_float example_filtered = Inr r"
    by blast
  from main r fd have "r \<noteq> None" by auto
  then obtain f where f: "r = Some f" by auto
  from main r f fd show ?thesis by simp
qed

lemma example_formatted:
  "get_formatted_data example_float example_filtered =
     Inr (Some \<lparr>dates = [''2024-01-02'', ''2024-01-03''], open = [2, 3], high = [2, 3],
                low = [2, 3], close = [2, 3]\<rparr>)"
  by (simp add: get_formatted_data_def example_filtered_def example_float_fields index0_def
      py_split.simps is_space_def is_digit_def cls_def digit_val_def)

section \<open>Missing keys and unmapped codes\<close>

lemma time_series_key_map_dom:
  "map_of time_series_key_map ts = None \<longleftrightarrow> ts \<notin> {1, 2, 3, 4}"
  by (auto simp: time_series_key_map_def)

lemma function_map_dom:
  "map_of function_map ts = None \<longleftrightarrow> ts \<notin> {1, 2, 3, 4}"
  by (auto simp: function_map_def)

text \<open>
  Claim C3, as stated, fails: with the granularity code 5 both \<open>fetch_stock_data\<close> and
  \<open>filter_by_date_range\<close> raise KeyError from the lookup in their table; no absent or
  empty result is returned, and no request is sent.
\<close>

theorem C3_counterexample:
  "fetch_stock_data (\<lambda>r. Response True (Some example_raw)) ''demo'' ''IBM'' 5 [] =
     (Inl KeyError, []) \<and>
   filter_by_date_range (StockData ''IBM'' example_raw 5) (jan 2) (jan 3) = Inl KeyError"
  by (simp add: fetch_stock_data_def build_params_def function_map_def
      filter_by_date_range_def StockData_def time_series_key_map_def)

text \<open>
  Claim C3, amended. For a granularity code 1 to 4, when the key of the time series is
  not in the response, \<open>filter_by_date_range\<close> returns the empty dict, leaves the object
  as it was, and \<open>get_formatted_data\<close> gives None: the result is Empty, not an
  exception. For a code outside 1 to 4 the table lookup is unchecked: \<open>fetch_stock_data\<close>
  raises KeyError before any request is sent, and \<open>filter_by_date_range\<close> raises KeyError.
\<close>

theorem C3_missing_key_is_empty:
  "(ts \<in> {1, 2, 3, 4} \<longrightarrow>
      (\<exists>key. map_of time_series_key_map ts = Some key \<and>
         (py_in key raw = Inr False \<longrightarrow>
            filter_by_date_range (StockData symb raw ts) s e = Inr ([], StockData symb raw ts) \<and>
            get_formatted_data fl (StockData symb raw ts) = Inr None))) \<and>
   (ts \<notin> {1, 2, 3, 4} \<longrightarrow>
      fetch_stock_data http_get api_key symb ts log = (Inl KeyError, log) \<and>
      filter_by_date_range (StockData symb raw ts) s e = Inl KeyError)"
proof -
  have a: "\<exists>key. map_of time_series_key_map ts = Some key \<and>
         (py_in key raw = Inr False \<longrightarrow>
            filter_by_date_range (StockData symb raw ts) s e = Inr ([], StockData symb raw ts) \<and>
            get_formatted_data fl (StockData symb raw ts) = Inr None)"
    if "ts \<in> {1, 2, 3, 4}"
  proof -
    from that obtain key where key: "map_of time_series_key_map ts = Some key"
      using time_series_key_map_dom [of ts] by auto
    have "filter_by_date_range (StockData symb raw ts) s e = Inr ([], StockData symb raw ts)"
      if "py_in key raw = Inr False"
      using key that by (simp add: filter_by_date_range_def StockData_def)
    moreover have "get_formatted_data fl (StockData symb raw ts) = Inr None"
      by (simp add: get_formatted_data_def StockData_def)
    ultimately show ?thesis using key by blast
  qed
  have b: "fetch_stock_data http_get api_key symb ts log = (Inl KeyError, log) \<and>
      filter_by_date_range (StockData symb raw ts) s e = Inl KeyError"
    if "ts \<notin> {1, 2, 3, 4}"
    using that time_series_key_map_dom [of ts] function_map_dom [of ts]
    by (simp add: fetch_stock_data_def build_params_def filter_by_date_range_def StockData_def)
  show ?thesis using a b by blast
qed

theorem C3_witness:
  "filter_by_date_range (StockData ''IBM'' example_raw 3) (jan 2) (jan 3) =
     Inr ([], StockData ''IBM'' example_raw 3) \<and>
   get_formatted_data example_float (StockData ''IBM'' example_raw 3) = Inr None \<and>
   fetch_stock_data (\<lambda>r. Response True (Some example_raw)) ''demo'' ''IBM'' 0 [] =
     (Inl KeyError, []) \<and>
   filter_by_date_range (StockData ''IBM'' example_raw 0) (jan 2) (jan 3) = Inl KeyError"
proof -
  have k: "map_of time_series_key_map 3 = Some ''Weekly Time Series''"
    by (simp add: time_series_key_map_def)
  have absent: "py_in ''Weekly Time Series'' example_raw = Inr False"
    by (simp add: py_in_def example_raw_def)
  have in3: "(3::int) \<in> {1, 2, 3, 4}" and out0: "(0::int) \<notin> {1, 2, 3, 4}" by simp_all
  from C3_missing_key_is_empty [where ts = 3 and raw = example_raw and symb = "''IBM''"
      and s = "jan 2" and e = "jan 3" and fl = example_float]
    in3 k absent
  have p1: "filter_by_date_range (StockData ''IBM'' example_raw 3) (jan 2) (jan 3) =
     Inr ([], StockData ''IBM'' example_raw 3) \<and>
   get_formatted_data example_float (StockData ''IBM'' example_raw 3) = Inr None"
    by auto
  from C3_missing_key_is_empty [where ts = 0 and raw = example_raw and symb = "''IBM''"
      and s = "jan 2" and e = "jan 3" and api_key = "''demo''" and log = "[]"
      and http_get = "\<lambda>r. Response True (Some example_raw)"] out0
  have p2: "fetch_stock_data (\<lambda>r. Response True (Some example_raw)) ''demo'' ''IBM'' 0 [] =
     (Inl KeyError, []) \<and>
   filter_by_date_range (StockData ''IBM'' example_raw 0) (jan 2) (jan 3) = Inl KeyError"
    by auto
  from p1 p2 show ?thesis by simp
qed

section \<open>The route\<close>

lemma validate_date_format_empty: "validate_date_format [] = Inr None"
  by (simp add: validate_date_format_def parse_defs)

text \<open>The route on a form whose fields pass the checks before the range check.\<close>

lemma index_checked:
  assumes "env_int env (form_get form ''chart_type'' ''2'') = Some ct"
    and "env_int env (form_get form ''time_series'' ''2'') = Some ts"
    and "env_upper env (py_strip (form_get form ''symbol'' [])) = symb"
    and "symb \<noteq> []"
    and "validate_date_format (py_strip (form_get form ''start_date'' [])) = Inr (Some s)"
    and "validate_date_format (py_strip (form_get form ''end_date'' [])) = Inr (Some e)"
  shows "index env (POST form) =
           (if validate_date_range s e
            then fetch_and_render env symb ct ts (py_strip (form_get form ''start_date'' []))
                   (py_strip (form_get form ''end_date'' [])) s e
            else (Inr (flash_page env symb range_message ''error''), []))"
proof -
  have "py_strip (form_get form ''start_date'' []) \<noteq> []"
    using assms(5) validate_date_format_empty by auto
  moreover have "py_strip (form_get form ''end_date'' []) \<noteq> []"
    using assms(6) validate_date_format_empty by auto
  ultimately show ?thesis
    using assms by (simp add: index_def Let_def)
qed

text \<open>The route on a form without a symbol.\<close>

lemma index_no_symbol:
  assumes "env_int env (form_get form ''chart_type'' ''2'') = Some ct"
    and "env_int env (form_get form ''time_series'' ''2'') = Some ts"
    and "env_upper env (py_strip (form_get form ''symbol'' [])) = []"
  shows "index env (POST form) =
           (Inr (flash_page env [] ''Please select a stock symbol.'' ''error''), [])"
  using assms by (simp add: index_def Let_def)

text \<open>A request was sent only if both dates were read and the range check passed.\<close>

lemma index_log:
  assumes "snd (index env req) \<noteq> []"
  shows "\<exists>form s e. req = POST form \<and>
           validate_date_format (py_strip (form_get form ''start_date'' [])) = Inr (Some s) \<and>
           validate_date_format (py_strip (form_get form ''end_date'' [])) = Inr (Some e) \<and>
           validate_date_range s e"
proof (cases req)
  case GET
  with assms show ?thesis by (simp add: index_def)
next
  case (POST form)
  let ?ss = "py_strip (form_get form ''start_date'' [])"
  let ?es = "py_strip (form_get form ''end_date'' [])"
  from assms POST obtain s e where
    "validate_date_format ?ss = Inr (Some s)" "validate_date_format ?es = Inr (Some e)"
    "validate_date_range s e"
    by (auto simp: index_def Let_def split: option.splits sum.splits if_splits)
  with POST show ?thesis by blast
qed


lemma filter_by_date_range_stored:
  "filter_by_date_range (StockData symb raw ts) s e = Inr (fd, stock) \<Longrightarrow> filtered_data stock = fd"
  by (auto simp: filter_by_date_range_def StockData_def split: option.splits sum.splits bool.splits)

lemma example_fields:
  "form_get (example_form a b) ''symbol'' [] = ''ibm ''"
  "form_get (example_form a b) ''chart_type'' ''2'' = ''1''"
  "form_get (example_form a b) ''time_series'' ''2'' = ''2''"
  "form_get (example_form a b) ''start_date'' [] = a"
  "form_get (example_form a b) ''end_date'' [] = b"
  by (simp_all add: form_get_def example_form_def)

lemma example_env_fields:
  "env_int example_env ''1'' = Some 1"
  "env_int example_env ''2'' = Some 2"
  "env_upper example_env (py_strip ''ibm '') = ''IBM''"
  by (simp_all add: example_env_def example_int_def example_upper_def py_strip_def is_space_def
      is_digit_def cls_def digit_val_def char_of_eq_iff)

lemma example_dates:
  "validate_date_format (py_strip ''2024-02-01'') = Inr (Some \<lparr>year = 2024, month = 2, day = 1\<rparr>)"
  "validate_date_format (py_strip ''2024-01-01'') = Inr (Some (jan 1))"
  "validate_date_format (py_strip ''2024-01-31'') = Inr (Some (jan 31))"
  "validate_date_format (py_strip ''2024-01-10'') = Inr (Some (jan 10))"
  by (simp_all add: validate_date_format_def py_strip_def is_space_def parse_defs jan_def)

text \<open>
  Claim C8. \<open>validate_date_range\<close> holds exactly when the end date is not before the start
  date. A form whose two dates are read and whose end date is before its start date sends
  no request; its two numbers being read, it is answered with one error message: that the
  end date must be on or after the start date, which is none of the other messages, or,
  when the symbol is missing, that a symbol must be selected. Whenever the route sends a
  request, both dates were read and the range check held.
\<close>

theorem C8_range_checked_before_fetch:
  "(validate_date_range s e \<longleftrightarrow> date_tuple e \<ge> date_tuple s) \<and>
   (validate_date_format (py_strip (form_get form ''start_date'' [])) = Inr (Some s) \<and>
    validate_date_format (py_strip (form_get form ''end_date'' [])) = Inr (Some e) \<and>
    date_tuple e < date_tuple s \<longrightarrow>
      snd (index env (POST form)) = [] \<and>
      (\<forall>ct ts. env_int env (form_get form ''chart_type'' ''2'') = Some ct \<and>
               env_int env (form_get form ''time_series'' ''2'') = Some ts \<longrightarrow>
         index env (POST form) =
           (Inr (flash_page env (env_upper env (py_strip (form_get form ''symbol'' [])))
                   (if env_upper env (py_strip (form_get form ''symbol'' [])) = []
                    then ''Please select a stock symbol.'' else range_message)
                   ''error''), []))) \<and>
   (snd (index env req) \<noteq> [] \<longrightarrow>
      (\<exists>form s e. req = POST form \<and>
         validate_date_format (py_strip (form_get form ''start_date'' [])) = Inr (Some s) \<and>
         validate_date_format (py_strip (form_get form ''end_date'' [])) = Inr (Some e) \<and>
         validate_date_range s e)) \<and>
   range_message \<notin> {''Please select a stock symbol.'', ''Please provide both start and end dates.'',
                      ''Invalid date format. Please use YYYY-MM-DD.'', fetch_failed_message}"
proof -
  have range: "validate_date_range s e \<longleftrightarrow> date_tuple e \<ge> date_tuple s"
    by (simp add: validate_date_range_def)
  have rejected: "snd (index env (POST form)) = [] \<and>
      (\<forall>ct ts. env_int env (form_get form ''chart_type'' ''2'') = Some ct \<and>
               env_int env (form_get form ''time_series'' ''2'') = Some ts \<longrightarrow>
         index env (POST form) =
           (Inr (flash_page env (env_upper env (py_strip (form_get form ''symbol'' [])))
                   (if env_upper env (py_strip (form_get form ''symbol'' [])) = []
                    then ''Please select a stock symbol.'' else range_message)
                   ''error''), []))"
    if s: "validate_date_format (py_strip (form_get form ''start_date'' [])) = Inr (Some s)"
      and e: "validate_date_format (py_strip (form_get form ''end_date'' [])) = Inr (Some e)"
      and lt: "date_tuple e < date_tuple s"
  proof -
    have no: "\<not> validate_date_range s e"
      using lt by (simp add: validate_date_range_def not_le)
    have "snd (index env (POST form)) = []"
    proof (rule ccontr)
      assume "snd (index env (POST form)) \<noteq> []"
      from index_log [OF this] s e have "validate_date_range s e" by auto
      with no show False by simp
    qed
    moreover have "index env (POST form) =
           (Inr (flash_page env (env_upper env (py_strip (form_get form ''symbol'' [])))
                   (if env_upper env (py_strip (form_get form ''symbol'' [])) = []
                    then ''Please select a stock symbol.'' else range_message)
                   ''error''), [])"
      if ct: "env_int env (form_get form ''chart_type'' ''2'') = Some ct"
        and ts: "env_int env (form_get form ''time_series'' ''2'') = Some ts" for ct ts
    proof (cases "env_upper env (py_strip (form_get form ''symbol'' [])) = []")
      case True
      from index_no_symbol [OF ct ts True] True show ?thesis by simp
    next
      case False
      from index_checked [OF ct ts refl False s e] no False show ?thesis by simp
    qed
    ultimately show ?thesis by blast
  qed
  have msg: "range_message \<notin> {''Please select a stock symbol.'',
      ''Please provide both start and end dates.'',
      ''Invalid date format. Please use YYYY-MM-DD.'', fetch_failed_message}"
    by (simp add: range_message_def fetch_failed_message_def)
  show ?thesis using range rejected index_log [of env req] msg by blast
qed

theorem C8_witness:
  "index example_env (POST (example_form ''2024-02-01'' ''2024-01-01'')) =
     (Inr (flash_page example_env ''IBM'' range_message ''error''), [])"
proof -
  let ?form = "example_form ''2024-02-01'' ''2024-01-01''"
  have lt: "date_tuple (jan 1) < date_tuple \<lparr>year = 2024, month = 2, day = 1\<rparr>"
    by (simp add: date_tuple_def jan_def)
  from C8_range_checked_before_fetch
    [where s = "\<lparr>year = 2024, month = 2, day = 1\<rparr>" and e = "jan 1" and form = ?form
       and env = example_env]
  show ?thesis
    using lt by (simp add: example_fields example_env_fields example_dates)
qed


text \<open>
  Claim C7. For a form that passes every check, when the fetch returns data and the
  filter retains no entry, \<open>get_formatted_data\<close> gives None and the route answers with one
  flash of category warning whose text names the symbol, the start date and the end date
  as submitted; it is not the fetch-failure message of category error.
\<close>

theorem C7_empty_result_is_a_warning:
  assumes "env_int env (form_get form ''chart_type'' ''2'') = Some ct"
    and "env_int env (form_get form ''time_series'' ''2'') = Some ts"
    and "env_upper env (py_strip (form_get form ''symbol'' [])) = symb"
    and "symb \<noteq> []"
    and "py_strip (form_get form ''start_date'' []) = start_date_str"
    and "py_strip (form_get form ''end_date'' []) = end_date_str"
    and "validate_date_format start_date_str = Inr (Some s)"
    and "validate_date_format end_date_str = Inr (Some e)"
    and "validate_date_range s e"
    and "fetch_stock_data (env_http_get env) (env_API_KEY env) symb ts [] = (Inr (Some raw), log)"
    and "truthy (env_bool env) raw"
    and "filter_by_date_range (StockData symb raw ts) s e = Inr ([], stock)"
  shows "get_formatted_data (env_float env) stock = Inr None \<and>
         index env (POST form) =
           (Inr \<lparr>symbols = env_symbols env, chart_html = None, selected_symbol = Some symb,
                  flashes = [(''No data found for '' @ symb @ '' in the date range '' @
                              start_date_str @ '' to '' @ end_date_str @ ''.'', ''warning'')]\<rparr>,
            log) \<and>
         (''No data found for '' @ symb @ '' in the date range '' @
            start_date_str @ '' to '' @ end_date_str @ ''.'', ''warning'') \<noteq>
         (fetch_failed_message, ''error'')"
proof -
  have empty: "filtered_data stock = []"
    using assms(12) by (rule filter_by_date_range_stored)
  then have none: "get_formatted_data (env_float env) stock = Inr None"
    by (simp add: get_formatted_data_def)
  have "index env (POST form) =
          fetch_and_render env symb ct ts start_date_str end_date_str s e"
    using index_checked [OF assms(1-4), of s e] assms(5-9) by simp
  also have "\<dots> = (Inr (flash_page env symb
                       (no_data_message symb start_date_str end_date_str) ''warning''), log)"
    using assms(10-12) none by (simp add: fetch_and_render_def)
  finally have page: "index env (POST form) =
           (Inr \<lparr>symbols = env_symbols env, chart_html = None, selected_symbol = Some symb,
                  flashes = [(''No data found for '' @ symb @ '' in the date range '' @
                              start_date_str @ '' to '' @ end_date_str @ ''.'', ''warning'')]\<rparr>,
            log)"
    by (simp add: flash_page_def no_data_message_def)
  show ?thesis using none page by simp
qed

lemma example_request:
  "fetch_stock_data (env_http_get example_env) (env_API_KEY example_env) ''IBM'' 2 [] =
     (Inr (Some example_raw),
      [(BASE_URL, [(''function'', ''TIME_SERIES_DAILY''), (''symbol'', ''IBM''),
                   (''apikey'', ''demo''), (''outputsize'', ''full'')])])"
  by (simp add: fetch_stock_data_def build_params_def function_map_def classify_reply_def
      example_env_def example_raw_def py_in_def)

lemma example_out_of_range:
  "filter_by_date_range (StockData ''IBM'' example_raw 2) (jan 10) (jan 31) =
     Inr ([], (StockData ''IBM'' example_raw 2)\<lparr>filtered_data := []\<rparr>)"
  by (simp add: filter_by_date_range_def StockData_def time_series_key_map_def example_raw_def
      py_in_def py_getitem_def py_items_def example_items_def key_date_examples
      date_le_def date_tuple_def jan_def)

theorem C7_witness:
  "index example_env (POST (example_form ''2024-01-10'' ''2024-01-31'')) =
     (Inr \<lparr>symbols = [''AAPL'', ''IBM''], chart_html = None, selected_symbol = Some ''IBM'',
            flashes = [(''No data found for IBM in the date range 2024-01-10 to 2024-01-31.'',
                        ''warning'')]\<rparr>,
      [(BASE_URL, [(''function'', ''TIME_SERIES_DAILY''), (''symbol'', ''IBM''),
                   (''apikey'', ''demo''), (''outputsize'', ''full'')])])"
proof -
  let ?form = "example_form ''2024-01-10'' ''2024-01-31''"
  have h1: "env_int example_env (form_get ?form ''chart_type'' ''2'') = Some 1"
    and h2: "env_int example_env (form_get ?form ''time_series'' ''2'') = Some 2"
    and h3: "env_upper example_env (py_strip (form_get ?form ''symbol'' [])) = ''IBM''"
    and h4: "''IBM'' \<noteq> []"
    by (simp_all add: example_fields example_env_fields)
  have h5: "py_strip (form_get ?form ''start_date'' []) = ''2024-01-10''"
    and h6: "py_strip (form_get ?form ''end_date'' []) = ''2024-01-31''"
    by (simp_all add: example_fields py_strip_def is_space_def)
  have h7: "validate_date_format ''2024-01-10'' = Inr (Some (jan 10))"
    and h8: "validate_date_format ''2024-01-31'' = Inr (Some (jan 31))"
    using example_dates(3,4) by (simp_all add: py_strip_def is_space_def)
  have h9: "validate_date_range (jan 10) (jan 31)"
    by (simp add: validate_date_range_def date_tuple_def jan_def)
  have h11: "truthy (env_bool example_env) example_raw"
    by (simp add: truthy_def example_raw_def)
  from C7_empty_result_is_a_warning
    [OF h1 h2 h3 h4 h5 h6 h7 h8 h9 example_request h11 example_out_of_range]
  show ?thesis by (simp add: example_env_def)
qed

section \<open>Reading and writing dates\<close>

lemma of_char_digit_char: "n < 10 \<Longrightarrow> of_char (digit_char n) = 48 + n"
  by (simp add: digit_char_def)

lemma digit_val_digit_char: "n < 10 \<Longrightarrow> digit_val (digit_char n) = n"
  by (simp add: digit_val_def of_char_digit_char)

lemma cls_digit_char:
  "n < 10 \<Longrightarrow> cls lo hi (digit_char n) \<longleftrightarrow> of_char lo \<le> 48 + n \<and> 48 + n \<le> (of_char hi :: nat)"
  by (simp add: cls_def less_eq_char_def of_char_digit_char)

lemma char_eq_of_char: "c = d \<longleftrightarrow> (of_char c :: nat) = of_char d"
  by simp

lemma digit_char_eq: "n < 10 \<Longrightarrow> digit_char n = c \<longleftrightarrow> 48 + n = (of_char c :: nat)"
  using char_eq_of_char [of "digit_char n" c] by (simp add: of_char_digit_char)

lemma is_digit_bounds: "is_digit c \<longleftrightarrow> 48 \<le> (of_char c :: nat) \<and> (of_char c :: nat) \<le> 57"
  by (simp add: is_digit_def cls_def less_eq_char_def)

lemma cls_bounds: "cls lo hi c \<longleftrightarrow> (of_char lo :: nat) \<le> of_char c \<and> (of_char c :: nat) \<le> of_char hi"
  by (simp add: cls_def less_eq_char_def)

lemma digit_char_of_digit: "is_digit c \<Longrightarrow> digit_char (digit_val c) = c"
proof -
  assume "is_digit c"
  then have b: "48 \<le> (of_char c :: nat)" "(of_char c :: nat) \<le> 57"
    by (simp_all add: is_digit_bounds)
  then have "digit_val c < 10" by (simp add: digit_val_def)
  then show ?thesis using b by (simp add: digit_char_eq digit_val_def)
qed


lemma div_100: "(n::nat) div 100 = n div 10 div 10"
proof -
  have "n div (10 * 10) = n div 10 div 10" by (rule div_mult2_eq)
  then show ?thesis by simp
qed

lemma div_1000: "(n::nat) div 1000 = n div 10 div 10 div 10"
proof -
  have "n div (100 * 10) = n div 100 div 10" by (rule div_mult2_eq)
  then show ?thesis by (simp add: div_100)
qed

lemma pad2_digits:
  assumes "n < 100"
  obtains c d where "c < 10" "d < 10" "pad2 n = [digit_char c, digit_char d]" "n = 10 * c + d"
proof
  show "n div 10 < 10" using assms by simp
  show "n mod 10 < 10" by simp
  show "pad2 n = [digit_char (n div 10), digit_char (n mod 10)]"
    using assms by (simp add: pad2_def)
  show "n = 10 * (n div 10) + n mod 10" by simp
qed

lemma pad4_digits:
  assumes "y < 10000"
  obtains a b c d where "a < 10" "b < 10" "c < 10" "d < 10"
    "pad4 y = [digit_char a, digit_char b, digit_char c, digit_char d]"
    "y = 1000 * a + (100 * b + (10 * c + d))"
proof
  define q1 where "q1 = y div 10"
  define q2 where "q2 = q1 div 10"
  define q3 where "q3 = q2 div 10"
  have f0: "10 * q1 + y mod 10 = y" unfolding q1_def by (rule mult_div_mod_eq)
  have f1: "10 * q2 + q1 mod 10 = q1" unfolding q2_def by (rule mult_div_mod_eq)
  have f2: "10 * q3 + q2 mod 10 = q2" unfolding q3_def by (rule mult_div_mod_eq)
  show q3: "q3 < 10" using assms f0 f1 f2 by linarith
  show "q2 mod 10 < 10" "q1 mod 10 < 10" "y mod 10 < 10" by simp_all
  show "pad4 y = [digit_char q3, digit_char (q2 mod 10), digit_char (q1 mod 10),
                  digit_char (y mod 10)]"
    using q3 by (simp add: pad4_def div_100 div_1000 q1_def q2_def q3_def)
  show "y = 1000 * q3 + (100 * (q2 mod 10) + (10 * (q1 mod 10) + y mod 10))"
    using f0 f1 f2 by linarith
qed

lemma group_Y_digits:
  assumes "a < 10" "b < 10" "c < 10" "d < 10"
  shows "group_Y (digit_char a # digit_char b # digit_char c # digit_char d # r) =
           [(1000 * a + (100 * b + (10 * c + d)), r)]"
  using assms by (simp add: group_Y_def is_digit_def cls_digit_char digit_val_digit_char)

lemma group_m_digits:
  assumes "c < 10" "d < 10" "1 \<le> 10 * c + d" "10 * c + d \<le> 12"
  shows "\<exists>xs. group_m (digit_char c # digit_char d # r) = (10 * c + d, r) # xs"
proof -
  have "c = 0 \<and> 1 \<le> d \<or> c = 1 \<and> d \<le> 2" using assms by linarith
  then show ?thesis
    using assms(1,2)
    by (auto simp: group_m_def cls_digit_char digit_val_digit_char digit_char_eq)
qed

lemma group_d_digits:
  assumes "c < 10" "d < 10" "1 \<le> 10 * c + d" "10 * c + d \<le> 31"
  shows "\<exists>xs. group_d (digit_char c # digit_char d # r) = (10 * c + d, r) # xs"
proof -
  have "c = 0 \<and> 1 \<le> d \<or> c = 1 \<or> c = 2 \<or> c = 3 \<and> d \<le> 1" using assms by linarith
  then show ?thesis
    using assms(1,2)
    by (auto simp: group_d_def is_digit_def cls_digit_char digit_val_digit_char digit_char_eq)
qed


lemma days_in_month_le: "days_in_month y m \<le> 31"
  by (simp add: days_in_month_def)

lemma regex_matches_format_ymd:
  assumes "valid_date d"
  shows "\<exists>xs. regex_matches (format_ymd d @ r) = ((year d, month d, day d), r) # xs"
proof -
  from assms have y: "year d < 10000" and m: "1 \<le> month d" "month d \<le> 12"
    and dd: "1 \<le> day d" "day d \<le> 31"
    using days_in_month_le [of "year d" "month d"] by (auto simp: valid_date_def)
  from y obtain a b c e where ydig: "a < 10" "b < 10" "c < 10" "e < 10"
    "pad4 (year d) = [digit_char a, digit_char b, digit_char c, digit_char e]"
    "year d = 1000 * a + (100 * b + (10 * c + e))"
    by (rule pad4_digits)
  from m obtain m1 m2 where mdig: "m1 < 10" "m2 < 10"
    "pad2 (month d) = [digit_char m1, digit_char m2]" "month d = 10 * m1 + m2"
    by (auto intro: pad2_digits [of "month d"])
  from dd obtain d1 d2 where ddig: "d1 < 10" "d2 < 10"
    "pad2 (day d) = [digit_char d1, digit_char d2]" "day d = 10 * d1 + d2"
    by (auto intro: pad2_digits [of "day d"])
  let ?r4 = "digit_char d1 # digit_char d2 # r"
  let ?r2 = "digit_char m1 # digit_char m2 # CHR ''-'' # ?r4"
  have s: "format_ymd d @ r =
      digit_char a # digit_char b # digit_char c # digit_char e # CHR ''-'' # ?r2"
    by (simp add: format_ymd_def ydig(5) mdig(3) ddig(3))
  have gy: "group_Y (format_ymd d @ r) = [(year d, CHR ''-'' # ?r2)]"
    unfolding s ydig(6) by (rule group_Y_digits [OF ydig(1-4)])
  from group_m_digits [OF mdig(1,2), of "CHR ''-'' # ?r4"] m mdig(4)
  obtain ms where gm: "group_m ?r2 = (month d, CHR ''-'' # ?r4) # ms" by auto
  from group_d_digits [OF ddig(1,2), of r] dd ddig(4)
  obtain ds where gd: "group_d ?r4 = (day d, r) # ds" by auto
  show ?thesis
    by (simp add: regex_matches_def gy gm gd lit_def)
qed

lemma strptime_format_ymd:
  assumes "valid_date d"
  shows "strptime (format_ymd d) = Inr d"
proof -
  from regex_matches_format_ymd [OF assms, of "[]"]
  obtain xs where "regex_matches (format_ymd d) = ((year d, month d, day d), []) # xs"
    by auto
  then have "strptime (format_ymd d) =
      (if valid_date \<lparr>year = year d, month = month d, day = day d\<rparr>
       then Inr \<lparr>year = year d, month = month d, day = day d\<rparr> else Inl ValueError)"
    by (simp add: strptime_def Let_def)
  moreover have "\<lparr>year = year d, month = month d, day = day d\<rparr> = d" by simp
  ultimately show ?thesis using assms by (simp only: if_True)
qed


lemma div_mod_10: "d < 10 \<Longrightarrow> (10 * k + d) div 10 = (k::nat)" "d < 10 \<Longrightarrow> (10 * k + d) mod 10 = (d::nat)"
  by simp_all

lemma pad2_of_digits: "c < 10 \<Longrightarrow> d < 10 \<Longrightarrow> pad2 (10 * c + d) = [digit_char c, digit_char d]"
  by (simp add: pad2_def)

lemma pad2_small: "d < 10 \<Longrightarrow> pad2 d = [digit_char 0, digit_char d]"
  by (simp add: pad2_def)

lemma pad4_of_digits:
  assumes "a < 10" "b < 10" "c < 10" "d < 10"
  shows "pad4 (1000 * a + (100 * b + (10 * c + d))) =
           [digit_char a, digit_char b, digit_char c, digit_char d]"
proof -
  have e: "1000 * a + (100 * b + (10 * c + d)) = 10 * (10 * (10 * a + b) + c) + d" by simp
  show ?thesis
    unfolding e pad4_def div_100 div_1000 using assms by (simp only: div_mod_10) simp
qed

lemma cls_digit:
  assumes "cls lo hi c" "48 \<le> (of_char lo :: nat)" "(of_char hi :: nat) \<le> 57"
  shows "is_digit c" "of_char lo - 48 \<le> digit_val c" "digit_val c \<le> of_char hi - 48"
  using assms by (auto simp: cls_bounds is_digit_bounds digit_val_def)

lemma digit_val_less: "is_digit c \<Longrightarrow> digit_val c < 10"
  by (auto simp: is_digit_bounds digit_val_def)

lemma chr_digit: "digit_char 0 = CHR ''0''" "digit_char 1 = CHR ''1''" "digit_char 3 = CHR ''3''"
  "digit_char (Suc 0) = CHR ''1''"
  by (simp_all add: digit_char_def char_of_eq_iff)

lemma group_Y_sound:
  assumes "(y, r) \<in> set (group_Y s)"
  shows "y < 10000 \<and> s = pad4 y @ r"
proof -
  from assms obtain a b c d where s: "s = a # b # c # d # r"
    and dig: "is_digit a" "is_digit b" "is_digit c" "is_digit d"
    and y: "y = 1000 * digit_val a + (100 * digit_val b + (10 * digit_val c + digit_val d))"
    by (auto simp: group_Y_def split: list.splits if_splits)
  note lt = dig [THEN digit_val_less]
  have "pad4 y = [a, b, c, d]"
    unfolding y by (simp add: pad4_of_digits [OF lt] digit_char_of_digit dig)
  moreover have "y < 10000" unfolding y using lt by linarith
  ultimately show ?thesis using s by simp
qed


lemma group_m_cases:
  assumes "(m, r) \<in> set (group_m s)"
  obtains (two) b where "s = CHR ''1'' # b # r" "cls CHR ''0'' CHR ''2'' b" "m = 10 + digit_val b"
  | (zero) b where "s = CHR ''0'' # b # r" "cls CHR ''1'' CHR ''9'' b" "m = digit_val b"
  | (one) a where "s = a # r" "cls CHR ''1'' CHR ''9'' a" "m = digit_val a"
proof (cases s)
  case Nil
  with assms show ?thesis by (simp add: group_m_def)
next
  case outer: (Cons a s')
  show ?thesis
  proof (cases s')
    case Nil
    with outer assms have "r = [] \<and> cls CHR ''1'' CHR ''9'' a \<and> m = digit_val a"
      by (simp add: group_m_def split: if_splits)
    with outer Nil show ?thesis by (intro that(3) [of a]) simp_all
  next
    case (Cons b rest)
    with outer assms have
      "(a = CHR ''1'' \<and> cls CHR ''0'' CHR ''2'' b \<and> m = 10 + digit_val b \<and> r = rest) \<or>
       (a = CHR ''0'' \<and> cls CHR ''1'' CHR ''9'' b \<and> m = digit_val b \<and> r = rest) \<or>
       (cls CHR ''1'' CHR ''9'' a \<and> m = digit_val a \<and> r = b # rest)"
      by (simp add: group_m_def split: if_splits) blast+
    then show ?thesis
    proof (elim disjE conjE)
      assume "a = CHR ''1''" "cls CHR ''0'' CHR ''2'' b" "m = 10 + digit_val b" "r = rest"
      with outer Cons show ?thesis by (intro that(1) [of b]) simp_all
    next
      assume "a = CHR ''0''" "cls CHR ''1'' CHR ''9'' b" "m = digit_val b" "r = rest"
      with outer Cons show ?thesis by (intro that(2) [of b]) simp_all
    next
      assume "cls CHR ''1'' CHR ''9'' a" "m = digit_val a" "r = b # rest"
      with outer Cons show ?thesis by (intro that(3) [of a]) simp_all
    qed
  qed
qed

lemma group_m_sound:
  assumes "(m, r) \<in> set (group_m s)"
  shows "1 \<le> m \<and> m \<le> 12 \<and> (\<exists>sp \<in> set (month_spellings m). s = sp @ r)"
  using assms
proof (cases rule: group_m_cases)
  case (two b)
  from cls_digit [OF two(2)] have b: "is_digit b" "digit_val b \<le> 2" by simp_all
  then have lt: "digit_val b < 10" by simp
  have "pad2 m = [CHR ''1'', b]"
    using pad2_of_digits [of 1 "digit_val b"] lt two(3) b(1)
    by (simp add: chr_digit digit_char_of_digit)
  then show ?thesis using two b by (simp add: month_spellings_def)
next
  case (zero b)
  from cls_digit [OF zero(2)] have b: "is_digit b" "1 \<le> digit_val b" "digit_val b \<le> 9"
    by simp_all
  have "pad2 m = [CHR ''0'', b]"
    using pad2_small [of "digit_val b"] b zero(3) by (simp add: chr_digit digit_char_of_digit)
  then show ?thesis using zero b by (simp add: month_spellings_def)
next
  case (one a)
  from cls_digit [OF one(2)] have a: "is_digit a" "1 \<le> digit_val a" "digit_val a \<le> 9"
    by simp_all
  have "[digit_char m] = [a]" using a one(3) by (simp add: digit_char_of_digit)
  then show ?thesis using one a by (simp add: month_spellings_def)
qed

lemma group_d_cases:
  assumes "(d, r) \<in> set (group_d s)"
  obtains (three) b where "s = CHR ''3'' # b # r" "cls CHR ''0'' CHR ''1'' b" "d = 30 + digit_val b"
  | (two) a b where "s = a # b # r" "cls CHR ''1'' CHR ''2'' a" "is_digit b"
      "d = 10 * digit_val a + digit_val b"
  | (zero) b where "s = CHR ''0'' # b # r" "cls CHR ''1'' CHR ''9'' b" "d = digit_val b"
  | (one) a where "s = a # r" "cls CHR ''1'' CHR ''9'' a" "d = digit_val a"
  | (space) b where "s = CHR '' '' # b # r" "cls CHR ''1'' CHR ''9'' b" "d = digit_val b"
proof (cases s)
  case Nil
  with assms show ?thesis by (simp add: group_d_def)
next
  case outer: (Cons a s')
  show ?thesis
  proof (cases s')
    case Nil
    with outer assms have "r = [] \<and> cls CHR ''1'' CHR ''9'' a \<and> d = digit_val a"
      by (simp add: group_d_def split: if_splits)
    with outer Nil show ?thesis by (intro that(4) [of a]) simp_all
  next
    case (Cons b rest)
    with outer assms have
      "(a = CHR ''3'' \<and> cls CHR ''0'' CHR ''1'' b \<and> d = 30 + digit_val b \<and> r = rest) \<or>
       (cls CHR ''1'' CHR ''2'' a \<and> is_digit b \<and> d = 10 * digit_val a + digit_val b \<and> r = rest) \<or>
       (a = CHR ''0'' \<and> cls CHR ''1'' CHR ''9'' b \<and> d = digit_val b \<and> r = rest) \<or>
       (cls CHR ''1'' CHR ''9'' a \<and> d = digit_val a \<and> r = b # rest) \<or>
       (a = CHR '' '' \<and> cls CHR ''1'' CHR ''9'' b \<and> d = digit_val b \<and> r = rest)"
      by (simp add: group_d_def split: if_splits) blast+
    then show ?thesis
    proof (elim disjE conjE)
      assume "a = CHR ''3''" "cls CHR ''0'' CHR ''1'' b" "d = 30 + digit_val b" "r = rest"
      with outer Cons show ?thesis by (intro that(1) [of b]) simp_all
    next
      assume "cls CHR ''1'' CHR ''2'' a" "is_digit b" "d = 10 * digit_val a + digit_val b"
        "r = rest"
      with outer Cons show ?thesis by (intro that(2) [of a b]) simp_all
    next
      assume "a = CHR ''0''" "cls CHR ''1'' CHR ''9'' b" "d = digit_val b" "r = rest"
      with outer Cons show ?thesis by (intro that(3) [of b]) simp_all
    next
      assume "cls CHR ''1'' CHR ''9'' a" "d = digit_val a" "r = b # rest"
      with outer Cons show ?thesis by (intro that(4) [of a]) simp_all
    next
      assume "a = CHR '' ''" "cls CHR ''1'' CHR ''9'' b" "d = digit_val b" "r = rest"
      with outer Cons show ?thesis by (intro that(5) [of b]) simp_all
    qed
  qed
qed

lemma group_d_sound:
  assumes "(d, r) \<in> set (group_d s)"
  shows "1 \<le> d \<and> d \<le> 31 \<and> (\<exists>sp \<in> set (day_spellings d). s = sp @ r)"
  using assms
proof (cases rule: group_d_cases)
  case (three b)
  from cls_digit [OF three(2)] have b: "is_digit b" "digit_val b \<le> 1" by simp_all
  then have lt: "digit_val b < 10" by simp
  have "pad2 d = [CHR ''3'', b]"
    using pad2_of_digits [of 3 "digit_val b"] lt three(3) b(1)
    by (simp add: chr_digit digit_char_of_digit)
  then show ?thesis using three b by (simp add: day_spellings_def)
next
  case (two a b)
  from cls_digit [OF two(2)] have a: "is_digit a" "1 \<le> digit_val a" "digit_val a \<le> 2"
    by simp_all
  have lt: "digit_val a < 10" "digit_val b < 10"
    using a two(3) by (simp_all add: digit_val_less)
  have "pad2 d = [a, b]"
    unfolding two(4) using pad2_of_digits [OF lt] a(1) two(3) by (simp add: digit_char_of_digit)
  moreover have "10 \<le> d" "d \<le> 31" using a lt two(4) by linarith+
  ultimately show ?thesis using two by (simp add: day_spellings_def)
next
  case (zero b)
  from cls_digit [OF zero(2)] have b: "is_digit b" "1 \<le> digit_val b" "digit_val b \<le> 9"
    by simp_all
  have "pad2 d = [CHR ''0'', b]"
    using pad2_small [of "digit_val b"] b zero(3) by (simp add: chr_digit digit_char_of_digit)
  then show ?thesis using zero b by (simp add: day_spellings_def)
next
  case (one a)
  from cls_digit [OF one(2)] have a: "is_digit a" "1 \<le> digit_val a" "digit_val a \<le> 9"
    by simp_all
  have "[digit_char d] = [a]" using a one(3) by (simp add: digit_char_of_digit)
  then show ?thesis using one a by (simp add: day_spellings_def)
next
  case (space b)
  from cls_digit [OF space(2)] have b: "is_digit b" "1 \<le> digit_val b" "digit_val b \<le> 9"
    by simp_all
  have "[digit_char d] = [b]" using b space(3) by (simp add: digit_char_of_digit)
  then show ?thesis using space b by (simp add: day_spellings_def)
qed


lemma cls_literals:
  "\<not> cls CHR ''0'' CHR ''2'' CHR ''-''" "\<not> cls CHR ''1'' CHR ''9'' CHR ''-''"
  "\<not> cls CHR ''1'' CHR ''2'' CHR '' ''" "\<not> cls CHR ''1'' CHR ''9'' CHR '' ''"
  by (simp_all add: cls_def)

lemma group_m_spelling:
  assumes "1 \<le> m" "m \<le> 12" "ms \<in> set (month_spellings m)"
  shows "\<exists>xs. group_m (ms @ CHR ''-'' # r) = (m, CHR ''-'' # r) # xs"
proof (cases "ms = pad2 m")
  case True
  from assms(2) obtain c d where dig: "c < 10" "d < 10"
    "pad2 m = [digit_char c, digit_char d]" "m = 10 * c + d"
    by (auto intro: pad2_digits [of m])
  from group_m_digits [OF dig(1,2), of "CHR ''-'' # r"] assms(1,2) dig(4)
  show ?thesis using True dig(3) by simp
next
  case False
  with assms(3) have ms: "ms = [digit_char m]" and lt: "m < 10"
    by (auto simp: month_spellings_def split: if_splits)
  show ?thesis
    using lt assms(1)
    by (simp add: ms group_m_def cls_digit_char digit_val_digit_char digit_char_eq cls_literals)
qed

lemma group_d_spelling:
  assumes "1 \<le> d" "d \<le> 31" "ds \<in> set (day_spellings d)"
  shows "\<exists>xs. group_d ds = (d, []) # xs"
proof (cases "ds = pad2 d")
  case True
  from assms(2) obtain c e where dig: "c < 10" "e < 10"
    "pad2 d = [digit_char c, digit_char e]" "d = 10 * c + e"
    by (auto intro: pad2_digits [of d])
  from group_d_digits [OF dig(1,2), of "[]"] assms(1,2) dig(4)
  show ?thesis using True dig(3) by simp
next
  case False
  with assms(3) have lt: "d < 10" and ds: "ds = [digit_char d] \<or> ds = [CHR '' '', digit_char d]"
    by (auto simp: day_spellings_def split: if_splits)
  from ds show ?thesis
  proof
    assume "ds = [digit_char d]"
    then show ?thesis
      using lt assms(1) by (simp add: group_d_def cls_digit_char digit_val_digit_char)
  next
    assume "ds = [CHR '' '', digit_char d]"
    then show ?thesis
      using lt assms(1)
      by (simp add: group_d_def cls_digit_char digit_val_digit_char cls_literals)
  qed
qed

lemma regex_matches_spelling:
  assumes "valid_date d" "s \<in> set (date_spellings d)"
  shows "\<exists>xs. regex_matches s = ((year d, month d, day d), []) # xs"
proof -
  from assms(1) have y: "year d < 10000" and m: "1 \<le> month d" "month d \<le> 12"
    and dd: "1 \<le> day d" "day d \<le> 31"
    using days_in_month_le [of "year d" "month d"] by (auto simp: valid_date_def)
  from assms(2) obtain ms ds where ms: "ms \<in> set (month_spellings (month d))"
    and ds: "ds \<in> set (day_spellings (day d))"
    and s: "s = pad4 (year d) @ ''-'' @ ms @ ''-'' @ ds"
    by (auto simp: date_spellings_def)
  from y obtain a b c e where ydig: "a < 10" "b < 10" "c < 10" "e < 10"
    "pad4 (year d) = [digit_char a, digit_char b, digit_char c, digit_char e]"
    "year d = 1000 * a + (100 * b + (10 * c + e))"
    by (rule pad4_digits)
  have s': "s = digit_char a # digit_char b # digit_char c # digit_char e # CHR ''-'' #
              (ms @ CHR ''-'' # ds)"
    by (simp add: s ydig(5))
  have gy: "group_Y s = [(year d, CHR ''-'' # (ms @ CHR ''-'' # ds))]"
    unfolding s' ydig(6) by (rule group_Y_digits [OF ydig(1-4)])
  from group_m_spelling [OF m ms, of ds]
  obtain xs where gm: "group_m (ms @ CHR ''-'' # ds) = (month d, CHR ''-'' # ds) # xs" by auto
  from group_d_spelling [OF dd ds]
  obtain ys where gd: "group_d ds = (day d, []) # ys" by auto
  show ?thesis
    by (simp add: regex_matches_def gy gm gd lit_def)
qed

lemma record_eq: "\<lparr>year = year d, month = month d, day = day d\<rparr> = (d :: datetime)"
  by simp

lemma strptime_spelling:
  assumes "valid_date d" "s \<in> set (date_spellings d)"
  shows "strptime s = Inr d"
proof -
  from regex_matches_spelling [OF assms]
  obtain xs where "regex_matches s = ((year d, month d, day d), []) # xs" by auto
  then have "strptime s =
      (if valid_date \<lparr>year = year d, month = month d, day = day d\<rparr>
       then Inr \<lparr>year = year d, month = month d, day = day d\<rparr> else Inl ValueError)"
    by (simp add: strptime_def Let_def)
  then show ?thesis using assms(1) by (simp only: record_eq if_True)
qed

lemma regex_matches_sound:
  assumes "((y, m, d), r) \<in> set (regex_matches s)"
  shows "y < 10000 \<and> 1 \<le> m \<and> m \<le> 12 \<and> 1 \<le> d \<and> d \<le> 31 \<and>
         (\<exists>ms \<in> set (month_spellings m). \<exists>ds \<in> set (day_spellings d).
            s = pad4 y @ ''-'' @ ms @ ''-'' @ ds @ r)"
proof -
  from assms obtain r2 r4 where
    gy: "(y, CHR ''-'' # r2) \<in> set (group_Y s)" and
    gm: "(m, CHR ''-'' # r4) \<in> set (group_m r2)" and
    gd: "(d, r) \<in> set (group_d r4)"
    by (auto simp: regex_matches_def lit_def split: list.splits if_splits)
  from group_Y_sound [OF gy] have y: "y < 10000" "s = pad4 y @ CHR ''-'' # r2" by simp_all
  from group_m_sound [OF gm] obtain ms where m: "1 \<le> m" "m \<le> 12"
    "ms \<in> set (month_spellings m)" "r2 = ms @ CHR ''-'' # r4" by auto
  from group_d_sound [OF gd] obtain ds where d: "1 \<le> d" "d \<le> 31"
    "ds \<in> set (day_spellings d)" "r4 = ds @ r" by auto
  have "s = pad4 y @ ''-'' @ ms @ ''-'' @ ds @ r" using y(2) m(4) d(4) by simp
  then show ?thesis using y(1) m(1-3) d(1-3) by blast
qed

lemma strptime_sound:
  assumes "strptime s = Inr dt"
  shows "valid_date dt \<and> s \<in> set (date_spellings dt)"
proof -
  from assms obtain y m d xs where rm: "regex_matches s = ((y, m, d), []) # xs"
    and dt: "dt = \<lparr>year = y, month = m, day = d\<rparr>" and v: "valid_date dt"
    by (auto simp: strptime_def Let_def split: list.splits prod.splits if_splits)
  from rm have "((y, m, d), []) \<in> set (regex_matches s)" by simp
  from regex_matches_sound [OF this] obtain ms ds where
    "ms \<in> set (month_spellings m)" "ds \<in> set (day_spellings d)"
    "s = pad4 y @ ''-'' @ ms @ ''-'' @ ds" by auto
  then have "s \<in> set (date_spellings dt)"
    by (auto simp: date_spellings_def dt)
  with v show ?thesis by simp
qed


lemma format_ymd_spelling: "format_ymd d \<in> set (date_spellings d)"
  by (simp add: date_spellings_def month_spellings_def day_spellings_def format_ymd_def)

lemma validate_date_format_strptime:
  "validate_date_format s = (case strptime s of Inr d \<Rightarrow> Inr (Some d) | Inl e \<Rightarrow> Inr None)"
  by (auto simp: validate_date_format_def split: sum.splits error.splits dest: strptime_error)

text \<open>
  Claim C6. A calendar date (year 1 to 9999) written as \<open>YYYY-MM-DD\<close> is read back by
  \<open>validate_date_format\<close> as the same date. \<open>validate_date_format\<close> never raises: it
  returns the date exactly for the spellings of a calendar date, and None for every other
  string, among them \<open>2024-13-40\<close>.
\<close>

theorem C6_date_round_trip:
  "(valid_date d \<longrightarrow> validate_date_format (format_ymd d) = Inr (Some d)) \<and>
   (\<exists>r. validate_date_format s = Inr r) \<and>
   (validate_date_format s = Inr (Some dt) \<longleftrightarrow>
      valid_date dt \<and> s \<in> set (date_spellings dt)) \<and>
   (validate_date_format s = Inr None \<longleftrightarrow>
      \<not> (\<exists>dt. valid_date dt \<and> s \<in> set (date_spellings dt))) \<and>
   validate_date_format ''2024-13-40'' = Inr None"
proof -
  have rt: "validate_date_format (format_ymd d) = Inr (Some d)" if "valid_date d"
    using strptime_spelling [OF that format_ymd_spelling]
    by (simp add: validate_date_format_strptime)
  have ret: "\<exists>r. validate_date_format s = Inr r"
    by (simp add: validate_date_format_strptime split: sum.splits)
  have some: "validate_date_format s = Inr (Some dt) \<longleftrightarrow>
      valid_date dt \<and> s \<in> set (date_spellings dt)"
  proof
    assume "validate_date_format s = Inr (Some dt)"
    then have "strptime s = Inr dt"
      by (simp add: validate_date_format_strptime split: sum.splits)
    then show "valid_date dt \<and> s \<in> set (date_spellings dt)" by (rule strptime_sound)
  next
    assume "valid_date dt \<and> s \<in> set (date_spellings dt)"
    then have "strptime s = Inr dt" by (simp add: strptime_spelling)
    then show "validate_date_format s = Inr (Some dt)"
      by (simp add: validate_date_format_strptime)
  qed
  have none: "validate_date_format s = Inr None \<longleftrightarrow>
      \<not> (\<exists>dt. valid_date dt \<and> s \<in> set (date_spellings dt))"
  proof -
    have "validate_date_format s = Inr None \<longleftrightarrow> (\<forall>dt. strptime s \<noteq> Inr dt)"
      by (auto simp: validate_date_format_strptime split: sum.splits)
    also have "\<dots> \<longleftrightarrow> \<not> (\<exists>dt. valid_date dt \<and> s \<in> set (date_spellings dt))"
      using strptime_sound strptime_spelling by blast
    finally show ?thesis .
  qed
  have ex: "validate_date_format ''2024-13-40'' = Inr None"
    by (simp add: validate_date_format_def parse_defs)
  show ?thesis using rt ret some none ex by blast
qed

lemma format_ymd_example:
  "format_ymd \<lparr>year = 2024, month = 2, day = 29\<rparr> = ''2024-02-29''"
  by (simp add: format_ymd_def pad4_def pad2_def digit_char_def char_of_eq_iff)

theorem C6_witness:
  "validate_date_format ''2024-02-29'' = Inr (Some \<lparr>year = 2024, month = 2, day = 29\<rparr>) \<and>
   ''2024-02-29'' \<in> set (date_spellings \<lparr>year = 2024, month = 2, day = 29\<rparr>) \<and>
   \<not> (\<exists>dt. valid_date dt \<and> ''2024-13-40'' \<in> set (date_spellings dt))"
proof -
  have v: "valid_date \<lparr>year = 2024, month = 2, day = 29\<rparr>"
    by (simp add: valid_date_def days_in_month_def is_leap_def)
  from C6_date_round_trip
    [where d = "\<lparr>year = 2024, month = 2, day = 29\<rparr>" and s = "''2024-02-29''"
       and dt = "\<lparr>year = 2024, month = 2, day = 29\<rparr>"] v
  have a: "validate_date_format ''2024-02-29'' = Inr (Some \<lparr>year = 2024, month = 2, day = 29\<rparr>) \<and>
   ''2024-02-29'' \<in> set (date_spellings \<lparr>year = 2024, month = 2, day = 29\<rparr>)"
    unfolding format_ymd_example by blast
  from C6_date_round_trip [where s = "''2024-13-40''"]
  have b: "\<not> (\<exists>dt. valid_date dt \<and> ''2024-13-40'' \<in> set (date_spellings dt))"
    by blast
  from a b show ?thesis by simp
qed

section \<open>The order of the timestamps\<close>
























section \<open>The chart\<close>

lemma create_chart_renders:
  "dates data \<noteq> [] \<Longrightarrow>
     create_chart repr_str repr_num (Some data) symb chart_type start_date end_date =
       Some (render_chart repr_str repr_num
               (stock_chart_spec data symb chart_type start_date end_date))"
  by (simp add: create_chart_def render_chart_def render_dataset_def stock_chart_spec_def
      kind_name_def js_bool_def str_nat.simps)


text \<open>
  Claim C9. \<open>create_chart\<close> returns None when the series is absent and when its dates are
  empty. Otherwise it returns the page that shows the chart specification of the series:
  the labels are the dates of the series; there are exactly four datasets, labelled Open,
  High, Low and Close, holding the four lists, with four different border colours, four
  different background colours and no fill; the kind is bar when the chart type is 1 and
  line for every other number; the legend shows; the value axis is titled with the price
  and the category axis with the date; the tick labels are rotated 45 degrees; and the
  title holds the symbol and the two dates as displayed.
\<close>

theorem C9_chart_specification:
  fixes data :: "'n formatted" and symb start_date end_date :: string and chart_type :: int
  defines "spec \<equiv> stock_chart_spec data symb chart_type start_date end_date"
  shows
  "create_chart repr_str repr_num None symb chart_type start_date end_date = None \<and>
   (dates data = [] \<longrightarrow>
      create_chart repr_str repr_num (Some data) symb chart_type start_date end_date = None) \<and>
   (dates data \<noteq> [] \<longrightarrow>
      create_chart repr_str repr_num (Some data) symb chart_type start_date end_date =
        Some (render_chart repr_str repr_num spec)) \<and>
   cs_labels spec = dates data \<and>
   length (cs_datasets spec) = 4 \<and>
   map ds_label (cs_datasets spec) = [''Open'', ''High'', ''Low'', ''Close''] \<and>
   map ds_data (cs_datasets spec) = [open data, high data, low data, close data] \<and>
   distinct (map ds_border_color (cs_datasets spec)) \<and>
   distinct (map ds_background_color (cs_datasets spec)) \<and>
   (\<forall>ds \<in> set (cs_datasets spec). \<not> ds_fill ds) \<and>
   cs_kind spec = (if chart_type = 1 then Bar else Line) \<and>
   cs_legend_display spec \<and>
   cs_value_axis_title spec = ''Price ($)'' \<and>
   cs_category_axis_title spec = ''Date'' \<and>
   cs_tick_rotation spec = 45 \<and>
   cs_title spec = ''Stock Data for '' @ symb @ '': '' @ start_date @ '' to '' @ end_date"
proof -
  have none: "create_chart repr_str repr_num None symb chart_type start_date end_date = None"
    by (simp add: create_chart_def)
  have empty: "dates data = [] \<longrightarrow>
      create_chart repr_str repr_num (Some data) symb chart_type start_date end_date = None"
    by (simp add: create_chart_def)
  have chart: "dates data \<noteq> [] \<longrightarrow>
      create_chart repr_str repr_num (Some data) symb chart_type start_date end_date =
        Some (render_chart repr_str repr_num spec)"
    unfolding spec_def by (simp add: create_chart_renders)
  have props:
    "cs_labels spec = dates data"
    "length (cs_datasets spec) = 4"
    "map ds_label (cs_datasets spec) = [''Open'', ''High'', ''Low'', ''Close'']"
    "map ds_data (cs_datasets spec) = [open data, high data, low data, close data]"
    "distinct (map ds_border_color (cs_datasets spec))"
    "distinct (map ds_background_color (cs_datasets spec))"
    "\<forall>ds \<in> set (cs_datasets spec). \<not> ds_fill ds"
    "cs_kind spec = (if chart_type = 1 then Bar else Line)"
    "cs_legend_display spec"
    "cs_value_axis_title spec = ''Price ($)''"
    "cs_category_axis_title spec = ''Date''"
    "cs_tick_rotation spec = 45"
    "cs_title spec = ''Stock Data for '' @ symb @ '': '' @ start_date @ '' to '' @ end_date"
    by (simp_all add: spec_def stock_chart_spec_def)
  show ?thesis using none empty chart props by (intro conjI)
qed

theorem C9_witness:
  "create_chart (\<lambda>s. [CHR 0x27] @ s @ [CHR 0x27]) str_nat
     (Some \<lparr>dates = [''2024-01-02'', ''2024-01-03''], open = [2, 3], high = [2, 3],
             low = [2, 3], close = [2, 3]\<rparr>)
     ''IBM'' 1 ''2024-01-02'' ''2024-01-03'' =
     Some (render_chart (\<lambda>s. [CHR 0x27] @ s @ [CHR 0x27]) str_nat
             (stock_chart_spec
                \<lparr>dates = [''2024-01-02'', ''2024-01-03''], open = [2, 3], high = [2, 3],
                   low = [2, 3], close = [2, 3]\<rparr>
                ''IBM'' 1 ''2024-01-02'' ''2024-01-03'')) \<and>
   \<not> ds_fill (hd (cs_datasets
        (stock_chart_spec
           \<lparr>dates = [''2024-01-02'', ''2024-01-03''], open = [2, 3], high = [2, 3],
              low = [2, 3], close = [2::nat, 3]\<rparr>
           ''IBM'' 1 ''2024-01-02'' ''2024-01-03'')))"
proof -
  let ?data = "\<lparr>dates = [''2024-01-02'', ''2024-01-03''], open = [2, 3], high = [2, 3],
               low = [2, 3], close = [2::nat, 3]\<rparr>"
  let ?spec = "stock_chart_spec ?data ''IBM'' 1 ''2024-01-02'' ''2024-01-03''"
  have ne: "dates ?data \<noteq> []" by simp
  note main = C9_chart_specification
    [where data = ?data and repr_str = "\<lambda>s. [CHR 0x27] @ s @ [CHR 0x27]"
       and repr_num = str_nat and symb = "''IBM''" and chart_type = 1
       and start_date = "''2024-01-02''" and end_date = "''2024-01-03''"]
  from main have len: "length (cs_datasets ?spec) = 4"
    and nofill: "\<forall>ds \<in> set (cs_datasets ?spec). \<not> ds_fill ds"
    by blast+
  from len have "cs_datasets ?spec \<noteq> []" by auto
  then have "hd (cs_datasets ?spec) \<in> set (cs_datasets ?spec)" by simp
  with nofill have "\<not> ds_fill (hd (cs_datasets ?spec))" by blast
  with main ne show ?thesis by blast
qed

end
